theory Spec2Isabelle
  imports Complex_Main
begin

section \<open>Note table (constants/Notes.ts)\<close>

text \<open>
  JavaScript numbers are modelled as exact reals (no rounding, no NaN): the properties
  below are about comparisons and averages of frequencies.
\<close>

record Note =
  name :: string
  frequency :: real
  audioFile :: string

definition mk_note :: "string \<Rightarrow> real \<Rightarrow> string \<Rightarrow> Note" where
  "mk_note n f a = \<lparr>name = n, frequency = f, audioFile = a\<rparr>"

definition GUITAR_NOTES :: "Note list" where
  "GUITAR_NOTES =
   [mk_note ''E2'' 82.41 ''e2.mp3'',
    mk_note ''F2'' 87.31 ''f2.mp3'',
    mk_note ''F#2/Gb2'' 92.50 ''f-2.mp3'',
    mk_note ''G2'' 98.00 ''g2.mp3'',
    mk_note ''G#2/Ab2'' 103.83 ''g-2.mp3'',
    mk_note ''A2'' 110.00 ''a2.mp3'',
    mk_note ''A#2/Bb2'' 116.54 ''a-2.mp3'',
    mk_note ''B2'' 123.47 ''b2.mp3'',
    mk_note ''C3'' 130.81 ''c3.mp3'',
    mk_note ''C#3/Db3'' 138.59 ''c-3.mp3'',
    mk_note ''D3'' 146.83 ''d3.mp3'',
    mk_note ''D#3/Eb3'' 155.56 ''d-3.mp3'',
    mk_note ''E3'' 164.81 ''e3.mp3'',
    mk_note ''F3'' 174.61 ''f3.mp3'',
    mk_note ''F#3/Gb3'' 185.00 ''f-3.mp3'',
    mk_note ''G3'' 196.00 ''g3.mp3'',
    mk_note ''G#3/Ab3'' 207.65 ''g-3.mp3'',
    mk_note ''A3'' 220.00 ''a3.mp3'',
    mk_note ''A#3/Bb3'' 233.08 ''a-3.mp3'',
    mk_note ''B3'' 246.94 ''b3.mp3'',
    mk_note ''C4'' 261.63 ''c4.mp3'',
    mk_note ''C#4/Db4'' 277.18 ''c-4.mp3'',
    mk_note ''D4'' 293.66 ''d4.mp3'',
    mk_note ''D#4/Eb4'' 311.13 ''d-4.mp3'',
    mk_note ''E4'' 329.63 ''e4.mp3'',
    mk_note ''F4'' 349.23 ''f4.mp3'',
    mk_note ''F#4/Gb4'' 369.99 ''f-4.mp3'',
    mk_note ''G4'' 392.00 ''g4.mp3'',
    mk_note ''G#4/Ab4'' 415.30 ''g-4.mp3'',
    mk_note ''A4'' 440.00 ''a4.mp3'',
    mk_note ''A#4/Bb4'' 466.16 ''a-4.mp3'',
    mk_note ''B4'' 493.88 ''b4.mp3'',
    mk_note ''C5'' 523.25 ''c5.mp3'',
    mk_note ''C#5/Db5'' 554.37 ''c-5.mp3'',
    mk_note ''D5'' 587.33 ''d5.mp3'',
    mk_note ''D#5/Eb5'' 622.25 ''d-5.mp3'',
    mk_note ''E5'' 659.26 ''e5.mp3'',
    mk_note ''F5'' 698.46 ''f5.mp3'',
    mk_note ''F#5/Gb5'' 739.99 ''f-5.mp3'',
    mk_note ''G5'' 783.99 ''g5.mp3'',
    mk_note ''G#5/Ab5'' 830.61 ''g-5.mp3'',
    mk_note ''A5'' 880.00 ''a5.mp3'',
    mk_note ''A#5/Bb5'' 932.33 ''a-5.mp3'',
    mk_note ''B5'' 987.77 ''b5.mp3'']"

text \<open>
  The scan of \<open>findClosestNote\<close>: the loop over \<open>GUITAR_NOTES[1..]\<close> (the catalog
  is not empty, so \<open>GUITAR_NOTES[0]\<close> is its head), carrying
  \<open>closestNote\<close> and \<open>minDifference\<close>; the best is replaced only on a strictly smaller
  difference.
\<close>

fun closest_scan :: "real \<Rightarrow> Note list \<Rightarrow> Note \<times> real \<Rightarrow> Note \<times> real" where
  "closest_scan f [] best = best"
| "closest_scan f (n # ns) (closestNote, minDifference) =
     (let difference = \<bar>f - frequency n\<bar> in
      if difference < minDifference then closest_scan f ns (n, difference)
      else closest_scan f ns (closestNote, minDifference))"

definition findClosestNote :: "real \<Rightarrow> Note option" where
  "findClosestNote f =
     (if f \<le> 0 then None
      else
        let first = hd GUITAR_NOTES;
            (closestNote, minDifference) =
               closest_scan f (tl GUITAR_NOTES) (first, \<bar>f - frequency first\<bar>)
        in if minDifference > frequency closestNote * 0.05 then None else Some closestNote)"

text \<open>
  Specification predicate (not in the source): \<open>k\<close> is the first index of \<open>xs\<close> whose
  note is at minimal distance from \<open>f\<close>.
\<close>

definition first_argmin :: "real \<Rightarrow> Note list \<Rightarrow> nat \<Rightarrow> bool" where
  "first_argmin f xs k \<longleftrightarrow>
     k < length xs \<and>
     (\<forall>j < length xs. \<bar>f - frequency (xs ! k)\<bar> \<le> \<bar>f - frequency (xs ! j)\<bar>) \<and>
     (\<forall>j < k. \<bar>f - frequency (xs ! k)\<bar> < \<bar>f - frequency (xs ! j)\<bar>)"

subsection \<open>Random notes\<close>

text \<open>
  \<open>Math.random()\<close> yields a number in the half-open interval from 0 to 1; the values it
  returns are inputs of the model.
\<close>

typedef rand = "{r :: real. 0 \<le> r \<and> r < 1}"
  by (rule exI[of _ 0]) simp

text \<open>\<open>Array.prototype.findIndex\<close>: the first index satisfying the predicate, or -1.\<close>

fun findIndex :: "('a \<Rightarrow> bool) \<Rightarrow> 'a list \<Rightarrow> int" where
  "findIndex P [] = -1"
| "findIndex P (x # xs) =
     (if P x then 0 else (let i = findIndex P xs in if i = -1 then -1 else i + 1))"

definition calculateSemitones :: "Note \<Rightarrow> Note \<Rightarrow> int" where
  "calculateSemitones note1 note2 =
     (let index1 = findIndex (\<lambda>note. name note = name note1) GUITAR_NOTES;
          index2 = findIndex (\<lambda>note. name note = name note2) GUITAR_NOTES
      in if index1 = -1 \<or> index2 = -1 then 0 else \<bar>index2 - index1\<bar>)"

definition getRandomNote :: "rand \<Rightarrow> Note" where
  "getRandomNote r =
     (let randomIndex = \<lfloor>Rep_rand r * real (length GUITAR_NOTES)\<rfloor>
      in GUITAR_NOTES ! nat randomIndex)"

definition getRandomNoteWithinInterval :: "Note \<Rightarrow> nat \<Rightarrow> rand \<Rightarrow> Note" where
  "getRandomNoteWithinInterval referenceNote maxInterval r =
     (let referenceIndex = findIndex (\<lambda>note. name note = name referenceNote) GUITAR_NOTES
      in if referenceIndex = -1 then getRandomNote r
         else
           let minIndex = max 0 (referenceIndex - int maxInterval);
               maxIndex = min (int (length GUITAR_NOTES) - 1) (referenceIndex + int maxInterval);
               randomIndex = minIndex + \<lfloor>Rep_rand r * real_of_int (maxIndex - minIndex + 1)\<rfloor>
           in GUITAR_NOTES ! nat randomIndex)"

section \<open>Settings (constants/AppContext.tsx)\<close>

text \<open>
  The settings the orchestrator reads. \<open>notesPerTurn\<close>, \<open>maxInterval\<close>,
  \<open>repetitionsRequired\<close> and \<open>totalSequences\<close> are natural numbers (\<open>totalSequences = 0\<close>
  means no limit).
\<close>

record AppSettings =
  notesPerTurn :: nat
  maxInterval :: nat
  repetitionsRequired :: nat
  totalSequences :: nat

definition defaultSettings :: AppSettings where
  "defaultSettings =
     \<lparr>notesPerTurn = 1, maxInterval = 5, repetitionsRequired = 3, totalSequences = 10\<rparr>"

section \<open>Sequence generator (TrainingScreen, \<open>generateNewSequence\<close>)\<close>

text \<open>
  The loop \<open>for (i = 1; i < settings.notesPerTurn; i++)\<close>: each round reads
  \<open>newNotes[i - 1]\<close> and pushes a note within the interval. The \<open>i\<close>-th call of
  \<open>Math.random\<close> returns \<open>rnd i\<close>.
\<close>

function generate_loop :: "AppSettings \<Rightarrow> (nat \<Rightarrow> rand) \<Rightarrow> nat \<Rightarrow> Note list \<Rightarrow> Note list" where
  "generate_loop settings rnd i newNotes =
     (if i < notesPerTurn settings then
        (let prevNote = newNotes ! (i - 1);
             newNote = getRandomNoteWithinInterval prevNote (maxInterval settings) (rnd i)
         in generate_loop settings rnd (i + 1) (newNotes @ [newNote]))
      else newNotes)"
  by pat_completeness auto
termination
  by (relation "measure (\<lambda>(settings, rnd, i, newNotes). notesPerTurn settings - i)") auto

declare generate_loop.simps [simp del]

definition generateNewSequence :: "AppSettings \<Rightarrow> (nat \<Rightarrow> rand) \<Rightarrow> Note list" where
  "generateNewSequence settings rnd =
     (let firstNote = getRandomNote (rnd 0)
      in generate_loop settings rnd 1 [firstNote])"

text \<open>The catalog index of a note: its position in \<open>GUITAR_NOTES\<close>, found by name.\<close>

definition catalogIndex :: "Note \<Rightarrow> int" where
  "catalogIndex n = findIndex (\<lambda>note. name note = name n) GUITAR_NOTES"

text \<open>
  Specification predicate (not in the source): every adjacent pair of \<open>xs\<close> is at most
  \<open>M\<close> catalog positions apart.
\<close>

definition within_interval :: "nat \<Rightarrow> Note list \<Rightarrow> bool" where
  "within_interval M xs \<longleftrightarrow>
     (\<forall>i. Suc i < length xs \<longrightarrow> \<bar>catalogIndex (xs ! i) - catalogIndex (xs ! Suc i)\<bar> \<le> int M)"


section \<open>Detection session (utils/AudioUtils.ts)\<close>

text \<open>
  The fields of the \<open>AudioUtils\<close> singleton that detection reads and writes. A timer
  handle is \<open>None\<close> when the field is null and otherwise names the loop that
  \<open>setInterval\<close> installed. The browser objects and the callback are kept as flags
  (non-null or null); what the callback receives is returned by each tick as a list of
  emissions \<open>(note, volume)\<close>.
\<close>

datatype platform = Web | IOS | Android

datatype loop = WebLoop | ResumedWebLoop | SimulatedLoop string | NativeLoop | EnhancedLoop

record AudioUtils =
  pitchDetectionInterval :: "loop option"
  mobileRecordingInterval :: "loop option"
  onPitchDetected :: bool
  audioContext :: bool
  analyser :: bool
  recordingDataArray :: bool
  pitchDetector :: bool
  volumeThreshold :: real
  detectionHistory :: "real list"
  historySize :: nat
  minFrequency :: real
  maxFrequency :: real
  isMobileListening :: bool
  isPitchDetectionPaused :: bool
  pitchDetectionWasRunning :: bool

definition initialAudioUtils :: AudioUtils where
  "initialAudioUtils =
     \<lparr>pitchDetectionInterval = None, mobileRecordingInterval = None, onPitchDetected = False,
      audioContext = False, analyser = False, recordingDataArray = False, pitchDetector = False,
      volumeThreshold = 0.01, detectionHistory = [], historySize = 5,
      minFrequency = 80, maxFrequency = 1200, isMobileListening = False,
      isPitchDetectionPaused = False, pitchDetectionWasRunning = False\<rparr>"

type_synonym emission = "Note option \<times> real"

definition setVolumeThreshold :: "real \<Rightarrow> AudioUtils \<Rightarrow> AudioUtils" where
  "setVolumeThreshold threshold s = s\<lparr>volumeThreshold := threshold\<rparr>"

definition calculateVariance :: "real list \<Rightarrow> real \<Rightarrow> real" where
  "calculateVariance values mean =
     (if length values < 2 then 0
      else
        let squareDiffs = map (\<lambda>v. let diff = v - mean in diff * diff) values
        in sum_list squareDiffs / real (length squareDiffs))"

text \<open>\<open>history.reduce((a, b) => a + b, 0) / history.length\<close>\<close>

definition averageOf :: "real list \<Rightarrow> real" where
  "averageOf h = sum_list h / real (length h)"

text \<open>
  \<open>detectionHistory.push(x)\<close>, then one \<open>shift()\<close> when the length exceeds
  \<open>historySize\<close>.
\<close>

definition pushHistory :: "real \<Rightarrow> AudioUtils \<Rightarrow> AudioUtils" where
  "pushHistory x s =
     (let h = detectionHistory s @ [x]
      in s\<lparr>detectionHistory := (if length h > historySize s then tl h else h)\<rparr>)"

text \<open>The callback call \<open>if (this.onPitchDetected) this.onPitchDetected(note, volume)\<close>.\<close>

definition emit :: "AudioUtils \<Rightarrow> emission \<Rightarrow> emission list" where
  "emit s e = (if onPitchDetected s then [e] else [])"

text \<open>\<open>if (detectionHistory.length > 0) detectionHistory = []\<close>\<close>

definition clearHistory :: "AudioUtils \<Rightarrow> AudioUtils" where
  "clearHistory s = (if length (detectionHistory s) > 0 then s\<lparr>detectionHistory := []\<rparr> else s)"

subsection \<open>The three detectors of the web loops\<close>

text \<open>
  What one call of a Pitchfinder detector does: it throws, or returns null, a number, an
  object with a numeric \<open>freq\<close> field, or something else. The three calls sit in one
  \<open>try\<close>: a throw leaves the later variables null.
\<close>

datatype detector_out = Throws | Null | Num real | FreqObj real | Other

definition runDetectors ::
  "detector_out \<Rightarrow> detector_out \<Rightarrow> detector_out \<Rightarrow> detector_out \<times> detector_out \<times> detector_out" where
  "runDetectors d1 d2 d3 =
     (if d1 = Throws then (Null, Null, Null)
      else if d2 = Throws then (d1, Null, Null)
      else if d3 = Throws then (d1, d2, Null)
      else (d1, d2, d3))"

definition validPitches ::
  "AudioUtils \<Rightarrow> detector_out \<Rightarrow> detector_out \<Rightarrow> detector_out \<Rightarrow> real list" where
  "validPitches s d1 d2 d3 =
     (case runDetectors d1 d2 d3 of (pitch1, pitch2, pitch3) \<Rightarrow>
        let pitch1 = (case pitch1 of FreqObj f \<Rightarrow> Num f | _ \<Rightarrow> pitch1)
        in filter (\<lambda>p. p > minFrequency s \<and> p < maxFrequency s)
             (map (\<lambda>p. case p of Num x \<Rightarrow> x | _ \<Rightarrow> 0)
                (filter (\<lambda>p. p \<noteq> Null) [pitch1, pitch2, pitch3])))"

subsection \<open>The interval callbacks\<close>

text \<open>
  The loop of \<open>startWebPitchDetection\<close>, one tick. \<open>rms\<close> is the root mean square of
  the frame read from the analyser; \<open>d1\<close>, \<open>d2\<close>, \<open>d3\<close> are the outcomes of the
  Macleod, YIN and AMDF detectors on that frame.
\<close>

definition webTick ::
  "real \<Rightarrow> detector_out \<Rightarrow> detector_out \<Rightarrow> detector_out \<Rightarrow> AudioUtils \<Rightarrow> AudioUtils \<times> emission list" where
  "webTick rms d1 d2 d3 s =
     (if \<not> analyser s \<or> \<not> recordingDataArray s \<or> \<not> pitchDetector s then (s, [])
      else if rms > volumeThreshold s then
        (let valid = validPitches s d1 d2 d3
         in if length valid > 0 then
              (let pitch = sum_list valid / real (length valid)
               in if pitch > minFrequency s \<and> pitch < maxFrequency s then
                    (let s1 = pushHistory pitch s;
                         averagePitch = averageOf (detectionHistory s1);
                         variance = calculateVariance (detectionHistory s1) averagePitch;
                         isStable = variance < 5
                     in if isStable \<and> length (detectionHistory s1) \<ge> 3 then
                          (case findClosestNote averagePitch of
                             Some detectedNote \<Rightarrow> (s1, emit s (Some detectedNote, rms))
                           | None \<Rightarrow> (s1, []))
                        else (s1, emit s (None, rms)))
                  else (s, []))
            else (s, emit s (None, rms)))
      else (clearHistory s, emit s (None, rms)))"

text \<open>
  The loop installed by \<open>resumePitchDetection\<close> on the web, one tick. A null detector
  makes the first call throw inside the inner \<open>try\<close>.
\<close>

definition resumedWebTick ::
  "real \<Rightarrow> detector_out \<Rightarrow> detector_out \<Rightarrow> detector_out \<Rightarrow> AudioUtils \<Rightarrow> AudioUtils \<times> emission list" where
  "resumedWebTick rms d1 d2 d3 s =
     (if \<not> analyser s \<or> \<not> recordingDataArray s then (s, [])
      else
        let volumeReport = emit s (None, rms)
        in if rms \<ge> volumeThreshold s then
             (let valid = validPitches s (if pitchDetector s then d1 else Throws) d2 d3
              in if length valid > 0 then
                   (let pitch = sum_list valid / real (length valid)
                    in if pitch > minFrequency s \<and> pitch < maxFrequency s then
                         (let s1 = pushHistory pitch s;
                              averagePitch = averageOf (detectionHistory s1);
                              variance = calculateVariance (detectionHistory s1) averagePitch;
                              isStable = variance < 5
                          in if isStable \<and> length (detectionHistory s1) \<ge> 3 then
                               (case findClosestNote averagePitch of
                                  Some detectedNote \<Rightarrow>
                                    (s1, volumeReport @ emit s (Some detectedNote, rms))
                                | None \<Rightarrow> (s1, volumeReport))
                             else (s1, volumeReport))
                       else (s, volumeReport))
                 else (s, volumeReport))
           else (s, volumeReport))"

text \<open>
  The loop of \<open>startNativePitchDetection\<close>, one tick; \<open>r1\<close>, \<open>r2\<close>, \<open>r3\<close> are the
  values of its calls of \<open>Math.random\<close> (volume, base frequency, variation).
\<close>

definition nativeBaseFrequencies :: "real list" where
  "nativeBaseFrequencies = [220, 246.94, 261.63, 293.66, 329.63, 349.23, 392, 415.30, 440]"

definition nativeTick :: "rand \<Rightarrow> rand \<Rightarrow> rand \<Rightarrow> AudioUtils \<Rightarrow> AudioUtils \<times> emission list" where
  "nativeTick r1 r2 r3 s =
     (if \<not> isMobileListening s \<or> \<not> onPitchDetected s then (s, [])
      else
        let simulatedRMS = Rep_rand r1 * 0.1
        in if simulatedRMS > volumeThreshold s then
             (let randomIndex = \<lfloor>Rep_rand r2 * real (length nativeBaseFrequencies)\<rfloor>;
                  baseFreq = nativeBaseFrequencies ! nat randomIndex;
                  simulatedFrequency = baseFreq + (Rep_rand r3 * 4 - 2);
                  s1 = pushHistory simulatedFrequency s
              in if length (detectionHistory s1) \<ge> 3 then
                   (let averagePitch = averageOf (detectionHistory s1);
                        variance = calculateVariance (detectionHistory s1) averagePitch;
                        isStable = variance < 5
                    in if isStable then
                         (case findClosestNote averagePitch of
                            Some detectedNote \<Rightarrow> (s1, [(Some detectedNote, simulatedRMS)])
                          | None \<Rightarrow> (s1, [(None, simulatedRMS)]))
                       else (s1, [(None, simulatedRMS)]))
                 else (s1, [(None, simulatedRMS)]))
           else (clearHistory s, [(None, simulatedRMS)]))"

text \<open>
  The loop of \<open>startEnhancedSimulatedDetection\<close> (Android), one tick; \<open>r1\<close> to \<open>r4\<close>
  are the values of its calls of \<open>Math.random\<close> (volume, gate, base frequency, variation).
\<close>

definition enhancedBaseFrequencies :: "real list" where
  "enhancedBaseFrequencies = [261.63, 293.66, 329.63, 349.23, 392.00, 440.00, 493.88]"

definition enhancedTick ::
  "rand \<Rightarrow> rand \<Rightarrow> rand \<Rightarrow> rand \<Rightarrow> AudioUtils \<Rightarrow> AudioUtils \<times> emission list" where
  "enhancedTick r1 r2 r3 r4 s =
     (if \<not> isMobileListening s \<or> \<not> onPitchDetected s then (s, [])
      else
        let simulatedRMS = Rep_rand r1 * 0.2 + 0.05
        in if Rep_rand r2 > 0.2 then
             (let randomIndex = \<lfloor>Rep_rand r3 * real (length enhancedBaseFrequencies)\<rfloor>;
                  baseFreq = enhancedBaseFrequencies ! nat randomIndex;
                  simulatedFrequency = baseFreq + (Rep_rand r4 * 2 - 1);
                  s1 = pushHistory simulatedFrequency s
              in if length (detectionHistory s1) \<ge> 2 then
                   (let averagePitch = averageOf (detectionHistory s1);
                        variance = calculateVariance (detectionHistory s1) averagePitch;
                        isStable = variance < 10
                    in if isStable then
                         (case findClosestNote averagePitch of
                            Some detectedNote \<Rightarrow> (s1, [(Some detectedNote, simulatedRMS)])
                          | None \<Rightarrow> (s1, [(None, simulatedRMS)]))
                       else (s1, [(None, simulatedRMS)]))
                 else (s1, [(None, simulatedRMS)]))
           else (s, [(None, simulatedRMS)]))"

text \<open>
  The loop of \<open>startSimulatedPitchDetection\<close>, one tick. Its closure variable
  \<open>lastNote\<close> is kept in the timer handle. It never touches the history.
\<close>

definition simulatedNoteNames :: "string list" where
  "simulatedNoteNames = [''C'', ''D'', ''E'', ''F'', ''G'', ''A'', ''B'']"

definition toLowerCase :: "string \<Rightarrow> string" where
  "toLowerCase str =
     map (\<lambda>c. let n = (of_char c :: nat) in if 65 \<le> n \<and> n \<le> 90 then char_of (n + 32) else c) str"

text \<open>The decimal string of a one-digit number.\<close>

definition digitString :: "int \<Rightarrow> string" where
  "digitString d = [char_of (48 + nat d)]"

definition simulatedTick ::
  "rand \<Rightarrow> rand \<Rightarrow> rand \<Rightarrow> rand \<Rightarrow> string \<Rightarrow> AudioUtils \<Rightarrow> string \<times> emission list" where
  "simulatedTick r1 r2 r3 r4 lastNote s =
     (if Rep_rand r1 > 0.8 then
        (let noteIndex = \<lfloor>Rep_rand r2 * real (length simulatedNoteNames)\<rfloor>;
             octave = \<lfloor>Rep_rand r3 * 2\<rfloor> + 3;
             noteName = simulatedNoteNames ! nat noteIndex @ digitString octave
         in if noteName \<noteq> lastNote then
              (noteName,
               emit s (Some \<lparr>name = noteName, frequency = 440,
                             audioFile = toLowerCase noteName @ ''.mp3''\<rparr>,
                       volumeThreshold s + Rep_rand r4 * 0.05))
            else (lastNote, []))
      else (lastNote, emit s (None, Rep_rand r4 * 0.05)))"

subsection \<open>Start, stop, pause, resume\<close>

definition startSimulatedPitchDetection :: "AudioUtils \<Rightarrow> AudioUtils" where
  "startSimulatedPitchDetection s = s\<lparr>pitchDetectionInterval := Some (SimulatedLoop [])\<rparr>"

definition startEnhancedSimulatedDetection :: "AudioUtils \<Rightarrow> AudioUtils" where
  "startEnhancedSimulatedDetection s =
     s\<lparr>isMobileListening := True, mobileRecordingInterval := Some EnhancedLoop\<rparr>"

definition startNativePitchDetection :: "AudioUtils \<Rightarrow> AudioUtils" where
  "startNativePitchDetection s =
     s\<lparr>isMobileListening := True, mobileRecordingInterval := Some NativeLoop\<rparr>"

text \<open>
  What the browser answers to \<open>startWebPitchDetection\<close>: no Web Audio API, a rejected
  \<open>getUserMedia\<close>, or a stream.
\<close>

datatype web_env = NoWebAudio | MediaFails | MediaOk

definition startWebPitchDetection :: "web_env \<Rightarrow> AudioUtils \<Rightarrow> AudioUtils" where
  "startWebPitchDetection env s =
     (case env of
        NoWebAudio \<Rightarrow> startSimulatedPitchDetection s
      | MediaFails \<Rightarrow> startSimulatedPitchDetection s
      | MediaOk \<Rightarrow>
          s\<lparr>audioContext := True, analyser := True, recordingDataArray := True,
            pitchDetector := True, pitchDetectionInterval := Some WebLoop\<rparr>)"

text \<open>The answer to \<open>Audio.requestPermissionsAsync\<close>: granted, denied, or a throw.\<close>

datatype permission = Granted | Denied | RequestFails

definition startPitchDetection ::
  "platform \<Rightarrow> permission \<Rightarrow> web_env \<Rightarrow> AudioUtils \<Rightarrow> AudioUtils" where
  "startPitchDetection os perm env s =
     (let s0 = s\<lparr>onPitchDetected := True, detectionHistory := []\<rparr>
      in case perm of
           RequestFails \<Rightarrow> startSimulatedPitchDetection s0
         | Denied \<Rightarrow> startSimulatedPitchDetection s0
         | Granted \<Rightarrow>
             if os \<noteq> Web then
               (if os = Android then startEnhancedSimulatedDetection s0
                else startNativePitchDetection s0)
             else startWebPitchDetection env s0)"

definition stopPitchDetection :: "AudioUtils \<Rightarrow> AudioUtils" where
  "stopPitchDetection s =
     s\<lparr>pitchDetectionInterval := None, mobileRecordingInterval := None,
       isMobileListening := False, detectionHistory := [],
       audioContext := False, analyser := False, recordingDataArray := False,
       pitchDetector := False\<rparr>"

definition pausePitchDetection :: "AudioUtils \<Rightarrow> AudioUtils" where
  "pausePitchDetection s =
     (let s1 = s\<lparr>pitchDetectionWasRunning :=
                    (pitchDetectionInterval s \<noteq> None \<or> mobileRecordingInterval s \<noteq> None)\<rparr>
      in if \<not> pitchDetectionWasRunning s1 then s1
         else s1\<lparr>pitchDetectionInterval := None, mobileRecordingInterval := None,
                 isPitchDetectionPaused := True\<rparr>)"

definition resumePitchDetection :: "platform \<Rightarrow> AudioUtils \<Rightarrow> AudioUtils" where
  "resumePitchDetection os s =
     (if \<not> isPitchDetectionPaused s \<or> \<not> pitchDetectionWasRunning s then s
      else
        let s1 = (if os = Web \<and> audioContext s \<and> analyser s \<and> recordingDataArray s
                  then s\<lparr>pitchDetectionInterval := Some ResumedWebLoop\<rparr>
                  else if os = IOS then startNativePitchDetection s
                  else if os = Android then startEnhancedSimulatedDetection s
                  else s)
        in s1\<lparr>isPitchDetectionPaused := False, pitchDetectionWasRunning := False\<rparr>)"

text \<open>The session is listening when one of the two timers is set.\<close>

definition listening :: "AudioUtils \<Rightarrow> bool" where
  "listening s \<longleftrightarrow> pitchDetectionInterval s \<noteq> None \<or> mobileRecordingInterval s \<noteq> None"

subsection \<open>Runs of the session\<close>

text \<open>
  What can happen to the session: a call of its interface, or one of the two timers
  firing with the inputs of that tick.
\<close>

datatype event =
    Start permission web_env
  | Stop
  | Pause
  | Resume
  | SetVolumeThreshold real
  | PitchTick real detector_out detector_out detector_out rand rand rand rand
  | MobileTick rand rand rand rand

fun step :: "platform \<Rightarrow> event \<Rightarrow> AudioUtils \<Rightarrow> AudioUtils \<times> emission list" where
  "step os (Start perm env) s = (startPitchDetection os perm env s, [])"
| "step os Stop s = (stopPitchDetection s, [])"
| "step os Pause s = (pausePitchDetection s, [])"
| "step os Resume s = (resumePitchDetection os s, [])"
| "step os (SetVolumeThreshold v) s = (setVolumeThreshold v s, [])"
| "step os (PitchTick rms d1 d2 d3 r1 r2 r3 r4) s =
     (case pitchDetectionInterval s of
        Some WebLoop \<Rightarrow> webTick rms d1 d2 d3 s
      | Some ResumedWebLoop \<Rightarrow> resumedWebTick rms d1 d2 d3 s
      | Some (SimulatedLoop lastNote) \<Rightarrow>
          (case simulatedTick r1 r2 r3 r4 lastNote s of
             (lastNote', out) \<Rightarrow> (s\<lparr>pitchDetectionInterval := Some (SimulatedLoop lastNote')\<rparr>, out))
      | _ \<Rightarrow> (s, []))"
| "step os (MobileTick r1 r2 r3 r4) s =
     (case mobileRecordingInterval s of
        Some NativeLoop \<Rightarrow> nativeTick r1 r2 r3 s
      | Some EnhancedLoop \<Rightarrow> enhancedTick r1 r2 r3 r4 s
      | _ \<Rightarrow> (s, []))"

fun run :: "platform \<Rightarrow> event list \<Rightarrow> AudioUtils \<Rightarrow> AudioUtils \<times> emission list" where
  "run os [] s = (s, [])"
| "run os (e # es) s =
     (case step os e s of (s1, out1) \<Rightarrow>
        (case run os es s1 of (s2, out2) \<Rightarrow> (s2, out1 @ out2)))"

text \<open>
  Specification predicate (not in the source): the window holds at most \<open>historySize\<close>
  samples, and \<open>historySize\<close> has the value the class gives it.
\<close>

definition window_bounded :: "AudioUtils \<Rightarrow> bool" where
  "window_bounded s \<longleftrightarrow> length (detectionHistory s) \<le> historySize s \<and> historySize s = 5"

subsection \<open>Playback\<close>

text \<open>
  \<open>SoundManager.playSound\<close> is outside this development: each call either plays or
  throws. \<open>outcomes\<close> lists what the coming calls do (a call beyond the list plays);
  \<open>errorLog\<close> collects the messages of \<open>console.error\<close>. \<open>init()\<close> only sets the audio
  mode and is left out, as are the waits between notes.
\<close>

datatype play_outcome = Played | PlaybackFailure

datatype exn = SoundError

record World =
  audio :: AudioUtils
  outcomes :: "play_outcome list"
  errorLog :: "string list"

definition playSound :: "World \<Rightarrow> (exn + unit) \<times> World" where
  "playSound w =
     (case outcomes w of
        [] \<Rightarrow> (Inr (), w)
      | Played # rest \<Rightarrow> (Inr (), w\<lparr>outcomes := rest\<rparr>)
      | PlaybackFailure # rest \<Rightarrow> (Inl SoundError, w\<lparr>outcomes := rest\<rparr>))"

text \<open>
  \<open>playNote\<close>: pause unless already paused, play inside \<open>try\<close>, resume in \<open>finally\<close>
  unless it was paused before; the outer \<open>catch\<close> logs the error.
\<close>

definition playNote :: "platform \<Rightarrow> Note \<Rightarrow> World \<Rightarrow> World" where
  "playNote os note w =
     (let wasPitchDetectionPaused = isPitchDetectionPaused (audio w);
          w1 = (if \<not> wasPitchDetectionPaused then w\<lparr>audio := pausePitchDetection (audio w)\<rparr> else w)
      in case playSound w1 of (result, w2) \<Rightarrow>
           let w3 = (if \<not> wasPitchDetectionPaused
                     then w2\<lparr>audio := resumePitchDetection os (audio w2)\<rparr> else w2)
           in case result of
                Inl e \<Rightarrow> w3\<lparr>errorLog := errorLog w3 @ [''Failed to play note '' @ name note]\<rparr>
              | Inr u \<Rightarrow> w3)"

fun playNotes :: "platform \<Rightarrow> Note list \<Rightarrow> World \<Rightarrow> World" where
  "playNotes os [] w = w"
| "playNotes os (note # notes) w = playNotes os notes (playNote os note w)"

definition playSequence :: "platform \<Rightarrow> Note list \<Rightarrow> World \<Rightarrow> World" where
  "playSequence os notes w =
     (let wasPitchDetectionPaused = isPitchDetectionPaused (audio w);
          w1 = (if \<not> wasPitchDetectionPaused then w\<lparr>audio := pausePitchDetection (audio w)\<rparr> else w);
          w2 = playNotes os notes w1
      in if \<not> wasPitchDetectionPaused then w2\<lparr>audio := resumePitchDetection os (audio w2)\<rparr> else w2)"

section \<open>Training orchestrator (TrainingScreen)\<close>

text \<open>
  The state of the component, with \<open>currentSequence\<close> from the application context. A
  \<open>setTimeout\<close> appends its delay and callback to \<open>timers\<close>.
\<close>

datatype timer_action = OnFinish | NextSequence | PlayNewSequence "Note list"

record TrainingScreen =
  currentNotes :: "Note list"
  detectedNote :: "Note option"
  notesPlayed :: "nat list"
  correctSequencesPlayed :: nat
  isTrainingComplete :: bool
  sequenceInProgress :: bool
  isInitializing :: bool
  currentSequence :: nat
  timers :: "(nat \<times> timer_action) list"

definition playCurrentSequenceWithNotes ::
  "platform \<Rightarrow> Note list \<Rightarrow> TrainingScreen \<times> World \<Rightarrow> TrainingScreen \<times> World" where
  "playCurrentSequenceWithNotes os notes tw =
     (case tw of (t, w) \<Rightarrow>
        if length notes = 0 then (t, w)
        else
          let t1 = t\<lparr>sequenceInProgress := True\<rparr>;
              w1 = w\<lparr>audio := pausePitchDetection (audio w)\<rparr>;
              w2 = (playSequence os notes ^^ 3) w1;
              w3 = w2\<lparr>audio := resumePitchDetection os (audio w2)\<rparr>
          in (t1\<lparr>sequenceInProgress := False\<rparr>, w3))"

text \<open>\<open>GUITAR_NOTES.find(note => note.name === n) || GUITAR_NOTES[i]\<close>\<close>

definition findNoteOr :: "string \<Rightarrow> nat \<Rightarrow> Note" where
  "findNoteOr n i =
     (case List.find (\<lambda>note. name note = n) GUITAR_NOTES of
        Some note \<Rightarrow> note
      | None \<Rightarrow> GUITAR_NOTES ! i)"

definition successNotes :: "Note list" where
  "successNotes =
     [findNoteOr ''C4'' 20, findNoteOr ''E4'' 24, findNoteOr ''G4'' 27, findNoteOr ''C5'' 32]"

definition playSuccessSound :: "platform \<Rightarrow> World \<Rightarrow> World" where
  "playSuccessSound os w =
     (let w1 = w\<lparr>audio := pausePitchDetection (audio w)\<rparr>;
          w2 = playNote os (successNotes ! 0) w1;
          w3 = playNote os (successNotes ! 1) w2;
          w4 = playNote os (successNotes ! 2) w3;
          w5 = playNote os (successNotes ! 3) w4
      in w5\<lparr>audio := resumePitchDetection os (audio w5)\<rparr>)"

definition handleTrainingStepComplete ::
  "platform \<Rightarrow> AppSettings \<Rightarrow> TrainingScreen \<times> World \<Rightarrow> TrainingScreen \<times> World" where
  "handleTrainingStepComplete os settings tw =
     (case tw of (t, w) \<Rightarrow>
        let t1 = t\<lparr>sequenceInProgress := False\<rparr>;
            w1 = playSuccessSound os w
        in if totalSequences settings > 0 \<and> currentSequence t \<ge> totalSequences settings then
             (t1\<lparr>isTrainingComplete := True, timers := timers t1 @ [(3000, OnFinish)]\<rparr>, w1)
           else
             (t1\<lparr>currentSequence := currentSequence t1 + 1,
                 timers := timers t1 @ [(2000, NextSequence)]\<rparr>, w1))"

definition handleSequenceCompleted ::
  "platform \<Rightarrow> AppSettings \<Rightarrow> TrainingScreen \<times> World \<Rightarrow> TrainingScreen \<times> World" where
  "handleSequenceCompleted os settings tw =
     (case tw of (t, w) \<Rightarrow>
        let newCount = correctSequencesPlayed t + 1;
            t1 = t\<lparr>correctSequencesPlayed := newCount\<rparr>
        in if newCount \<ge> repetitionsRequired settings then
             handleTrainingStepComplete os settings (t1, w)
           else (t1\<lparr>notesPlayed := []\<rparr>, w))"

text \<open>
  The body of the effect on \<open>detectedNote\<close>, run on the state in which
  \<open>detectedNote\<close> already holds the new note.
\<close>

definition detectionEffect ::
  "platform \<Rightarrow> AppSettings \<Rightarrow> TrainingScreen \<times> World \<Rightarrow> TrainingScreen \<times> World" where
  "detectionEffect os settings tw =
     (case tw of (t, w) \<Rightarrow>
        (case detectedNote t of
           None \<Rightarrow> (t, w)
         | Some dn \<Rightarrow>
             if isInitializing t then (t, w)
             else
               let expectedNoteIndex = length (notesPlayed t)
               in if expectedNoteIndex < length (currentNotes t) \<and>
                     name dn = name (currentNotes t ! expectedNoteIndex) then
                    (let t1 = t\<lparr>notesPlayed := notesPlayed t @ [expectedNoteIndex]\<rparr>
                     in if int expectedNoteIndex = int (length (currentNotes t)) - 1
                        then handleSequenceCompleted os settings (t1, w)
                        else (t1, w))
                  else (t, w)))"

text \<open>
  A detection event: the callback given to \<open>startPitchDetection\<close> is called with a
  note. It calls \<open>setDetectedNote(note)\<close> (the volume it also stores is only displayed).
  The effect depends on \<open>detectedNote\<close> alone: a report of the note already held changes
  no state and the effect does not run; any other report stores the note and runs the
  effect. Detected notes are catalog entries, so being the same object and being equal
  coincide.
\<close>

definition detectionEvent ::
  "platform \<Rightarrow> AppSettings \<Rightarrow> Note option \<Rightarrow> TrainingScreen \<times> World \<Rightarrow> TrainingScreen \<times> World" where
  "detectionEvent os settings note tw =
     (case tw of (t, w) \<Rightarrow>
        if detectedNote t = note then (t, w)
        else detectionEffect os settings (t\<lparr>detectedNote := note\<rparr>, w))"

fun detectionEvents ::
  "platform \<Rightarrow> AppSettings \<Rightarrow> Note option list \<Rightarrow> TrainingScreen \<times> World \<Rightarrow> TrainingScreen \<times> World" where
  "detectionEvents os settings [] tw = tw"
| "detectionEvents os settings (note # notes) tw =
     detectionEvents os settings notes (detectionEvent os settings note tw)"

text \<open>
  The first pending timer fires. \<open>onFinish\<close> unmounts the screen, whose cleanup stops
  detection.
\<close>

definition fireTimer ::
  "platform \<Rightarrow> AppSettings \<Rightarrow> (nat \<Rightarrow> rand) \<Rightarrow> TrainingScreen \<times> World \<Rightarrow> TrainingScreen \<times> World" where
  "fireTimer os settings rnd tw =
     (case tw of (t, w) \<Rightarrow>
        (case timers t of
           [] \<Rightarrow> (t, w)
         | (delay, action) # rest \<Rightarrow>
             let t0 = t\<lparr>timers := rest\<rparr>
             in (case action of
                   OnFinish \<Rightarrow> (t0, w\<lparr>audio := stopPitchDetection (audio w)\<rparr>)
                 | NextSequence \<Rightarrow>
                     let newSequence = generateNewSequence settings rnd
                     in (t0\<lparr>currentNotes := newSequence, notesPlayed := [],
                            correctSequencesPlayed := 0,
                            timers := timers t0 @ [(200, PlayNewSequence newSequence)]\<rparr>, w)
                 | PlayNewSequence notes \<Rightarrow> playCurrentSequenceWithNotes os notes (t0, w))))"

text \<open>
  Specification predicate (not in the source): no timer is set, and the flags are those
  left by \<open>pausePitchDetection\<close>.
\<close>

definition quiet :: "AudioUtils \<Rightarrow> bool" where
  "quiet a \<longleftrightarrow> \<not> listening a \<and> (isPitchDetectionPaused a \<or> \<not> pitchDetectionWasRunning a)"


subsection \<open>The session as the application drives it\<close>

text \<open>
  The calls the training screen makes on the session, and the timers. Initialisation
  calls \<open>startPitchDetection\<close> and then, in the same chain of promises, plays the first
  demonstration, which begins with \<open>pausePitchDetection\<close>: the timer installed at start
  is cancelled before it can fire (the sequence played is never empty, since
  \<open>generateNewSequence\<close> always holds a first note, so the pause is always reached).
  Later demonstrations pause and resume; unmounting stops.
\<close>

datatype app_event =
    Init permission web_env
  | PauseCall
  | ResumeCall
  | StopCall
  | ThresholdCall real
  | PitchTimer real detector_out detector_out detector_out rand rand rand rand
  | MobileTimer rand rand rand rand

fun events_of :: "app_event \<Rightarrow> event list" where
  "events_of (Init perm env) = [Start perm env, Pause]"
| "events_of PauseCall = [Pause]"
| "events_of ResumeCall = [Resume]"
| "events_of StopCall = [Stop]"
| "events_of (ThresholdCall v) = [SetVolumeThreshold v]"
| "events_of (PitchTimer rms d1 d2 d3 r1 r2 r3 r4) = [PitchTick rms d1 d2 d3 r1 r2 r3 r4]"
| "events_of (MobileTimer r1 r2 r3 r4) = [MobileTick r1 r2 r3 r4]"

definition app_state :: "platform \<Rightarrow> app_event list \<Rightarrow> AudioUtils" where
  "app_state os calls = fst (run os (concat (map events_of calls)) initialAudioUtils)"

text \<open>
  Specification (not in the source): what the Stability Filter is to report for a window,
  given its variance bound and minimum count: the note the mean resolves to when the
  window is stable, none otherwise (also when the mean resolves to no note).
\<close>

definition filter_verdict :: "real \<Rightarrow> nat \<Rightarrow> real list \<Rightarrow> Note option" where
  "filter_verdict bound minCount h =
     (if calculateVariance h (averageOf h) < bound \<and> minCount \<le> length h
      then findClosestNote (averageOf h) else None)"

section \<open>Properties of the note table\<close>


lemma closest_scan_snoc:
  "closest_scan f (ns @ [n]) best =
     (case closest_scan f ns best of (c, d) \<Rightarrow>
        if \<bar>f - frequency n\<bar> < d then (n, \<bar>f - frequency n\<bar>) else (c, d))"
proof (induction ns arbitrary: best)
  case Nil
  show ?case by (cases best) simp
next
  case (Cons a ns)
  show ?case by (cases best) (simp add: Cons.IH Let_def)
qed

lemma first_argmin_snoc_new:
  assumes "first_argmin f xs k" "\<bar>f - frequency n\<bar> < \<bar>f - frequency (xs ! k)\<bar>"
  shows "first_argmin f (xs @ [n]) (length xs)"
  using assms unfolding first_argmin_def
  by (auto simp: nth_append less_Suc_eq)

lemma first_argmin_snoc_old:
  assumes "first_argmin f xs k" "\<not> \<bar>f - frequency n\<bar> < \<bar>f - frequency (xs ! k)\<bar>"
  shows "first_argmin f (xs @ [n]) k"
  using assms unfolding first_argmin_def
  by (auto simp: nth_append less_Suc_eq)

lemma closest_scan_first_argmin:
  assumes "xs \<noteq> []"
  shows "\<exists>k. first_argmin f xs k \<and>
      closest_scan f (tl xs) (hd xs, \<bar>f - frequency (hd xs)\<bar>) = (xs ! k, \<bar>f - frequency (xs ! k)\<bar>)"
  using assms
proof (induction xs rule: rev_nonempty_induct)
  case (single x)
  show ?case by (intro exI[of _ 0]) (simp add: first_argmin_def)
next
  case (snoc n xs)
  then obtain k where k: "first_argmin f xs k"
    and res: "closest_scan f (tl xs) (hd xs, \<bar>f - frequency (hd xs)\<bar>) = (xs ! k, \<bar>f - frequency (xs ! k)\<bar>)"
    by blast
  have hdtl: "hd (xs @ [n]) = hd xs" "tl (xs @ [n]) = tl xs @ [n]"
    using snoc.hyps by simp_all
  have klen: "k < length xs" using k by (simp add: first_argmin_def)
  show ?case
  proof (cases "\<bar>f - frequency n\<bar> < \<bar>f - frequency (xs ! k)\<bar>")
    case True
    from first_argmin_snoc_new[OF k True] True show ?thesis
      by (intro exI[of _ "length xs"]) (simp add: hdtl closest_scan_snoc res)
  next
    case False
    from first_argmin_snoc_old[OF k False] False klen show ?thesis
      by (intro exI[of _ k]) (simp add: hdtl closest_scan_snoc res nth_append)
  qed
qed

lemma G_nonempty: "GUITAR_NOTES \<noteq> []" by (simp add: GUITAR_NOTES_def)

lemma findClosestNote_scan:
  assumes "0 < f"
  shows "\<exists>k. first_argmin f GUITAR_NOTES k \<and>
          findClosestNote f =
            (if \<bar>f - frequency (GUITAR_NOTES ! k)\<bar> > frequency (GUITAR_NOTES ! k) * 0.05
             then None else Some (GUITAR_NOTES ! k))"
proof -
  from closest_scan_first_argmin[OF G_nonempty, of f] obtain k where
    k: "first_argmin f GUITAR_NOTES k" and
    res: "closest_scan f (tl GUITAR_NOTES) (hd GUITAR_NOTES, \<bar>f - frequency (hd GUITAR_NOTES)\<bar>)
            = (GUITAR_NOTES ! k, \<bar>f - frequency (GUITAR_NOTES ! k)\<bar>)" by blast
  show ?thesis using k assms by (intro exI[of _ k]) (simp add: findClosestNote_def res)
qed

text \<open>
  Claim C1. For every frequency \<open>f > 0\<close>, \<open>findClosestNote f\<close> is the catalog note that
  minimises \<open>\<bar>f - frequency note\<bar>\<close>, except that it is none when that minimal difference
  exceeds 0.05 times the matched note's frequency; for every \<open>f \<le> 0\<close> it is none.
\<close>

theorem findClosestNote_spec:
  "(f \<le> 0 \<longrightarrow> findClosestNote f = None) \<and>
   (0 < f \<longrightarrow> (\<exists>n \<in> set GUITAR_NOTES.
        (\<forall>m \<in> set GUITAR_NOTES. \<bar>f - frequency n\<bar> \<le> \<bar>f - frequency m\<bar>) \<and>
        findClosestNote f =
          (if \<bar>f - frequency n\<bar> > 0.05 * frequency n then None else Some n)))"
proof (intro conjI impI)
  assume "f \<le> 0" then show "findClosestNote f = None" by (simp add: findClosestNote_def)
next
  assume "0 < f"
  from findClosestNote_scan[OF this] obtain k where k: "first_argmin f GUITAR_NOTES k"
    and r: "findClosestNote f =
            (if \<bar>f - frequency (GUITAR_NOTES ! k)\<bar> > frequency (GUITAR_NOTES ! k) * 0.05
             then None else Some (GUITAR_NOTES ! k))" by blast
  have "GUITAR_NOTES ! k \<in> set GUITAR_NOTES" using k by (simp add: first_argmin_def)
  moreover have "\<forall>m \<in> set GUITAR_NOTES. \<bar>f - frequency (GUITAR_NOTES ! k)\<bar> \<le> \<bar>f - frequency m\<bar>"
    using k unfolding first_argmin_def by (metis in_set_conv_nth)
  ultimately show "\<exists>n \<in> set GUITAR_NOTES.
        (\<forall>m \<in> set GUITAR_NOTES. \<bar>f - frequency n\<bar> \<le> \<bar>f - frequency m\<bar>) \<and>
        findClosestNote f =
          (if \<bar>f - frequency n\<bar> > 0.05 * frequency n then None else Some n)"
    using r by (intro bexI[of _ "GUITAR_NOTES ! k"]) (simp_all add: mult.commute)
qed

theorem findClosestNote_spec_witness:
  "findClosestNote 0 = None \<and> findClosestNote (-5) = None \<and>
   (\<exists>n \<in> set GUITAR_NOTES.
        (\<forall>m \<in> set GUITAR_NOTES. \<bar>440 - frequency n\<bar> \<le> \<bar>440 - frequency m\<bar>) \<and>
        findClosestNote 440 =
          (if \<bar>440 - frequency n\<bar> > 0.05 * frequency n then None else Some n))"
  using findClosestNote_spec[of 0] findClosestNote_spec[of "-5"] findClosestNote_spec[of 440]
  by simp



lemma G_strictly_increasing: "sorted_wrt (<) (map frequency GUITAR_NOTES)"
  by (simp add: GUITAR_NOTES_def mk_note_def)

lemma G_frequency_mono:
  "a < b \<Longrightarrow> b < length GUITAR_NOTES \<Longrightarrow> frequency (GUITAR_NOTES ! a) < frequency (GUITAR_NOTES ! b)"
  using G_strictly_increasing by (simp add: sorted_wrt_iff_nth_less)

lemma G_adjacent_within_tolerance:
  "successively (\<lambda>a b. (frequency b - frequency a) / 2 \<le> frequency a * 0.05) GUITAR_NOTES"
  by (simp add: GUITAR_NOTES_def mk_note_def)

lemma G_adjacent_gap:
  "Suc a < length GUITAR_NOTES \<Longrightarrow>
     (frequency (GUITAR_NOTES ! Suc a) - frequency (GUITAR_NOTES ! a)) / 2 \<le> frequency (GUITAR_NOTES ! a) * 0.05"
  using G_adjacent_within_tolerance by (simp add: successively_conv_nth)

lemma tie_midpoint:
  fixes a b f :: real
  shows "a < b \<Longrightarrow> \<bar>f - a\<bar> = \<bar>f - b\<bar> \<Longrightarrow> \<bar>f - a\<bar> = (b - a) / 2"
  by (simp add: abs_if field_simps split: if_splits)

text \<open>
  Claim C10 as stated fails: two catalog notes can be equidistant from \<open>f\<close> without
  being the nearest. At 104 Hz, G2 (98.00) and A2 (110.00) are both 6 Hz away, and the
  result is G#2/Ab2 (103.83), which is neither of them.
\<close>

theorem findClosestNote_equidistant_counterexample:
  "(0::real) < 104 \<and>
   \<bar>104 - frequency (GUITAR_NOTES ! 3)\<bar> = \<bar>104 - frequency (GUITAR_NOTES ! 5)\<bar> \<and>
   findClosestNote 104 = Some (GUITAR_NOTES ! 4) \<and>
   findClosestNote 104 \<noteq> Some (GUITAR_NOTES ! 3) \<and>
   findClosestNote 104 \<noteq> Some (GUITAR_NOTES ! 5)"
  by (simp add: findClosestNote_def GUITAR_NOTES_def mk_note_def)

text \<open>
  Claim C10, amended. For every frequency \<open>f > 0\<close> at which two or more catalog notes are
  tied for the smallest distance from \<open>f\<close>, \<open>findClosestNote f\<close> returns the tied note
  with the smallest catalog index: the scan replaces its best only on a strictly smaller
  difference. The catalog frequencies increase strictly, so no third note can share the
  distance, and adjacent notes are close enough for the midpoint to pass the 5% test.
\<close>

theorem findClosestNote_tie_lowest_index:
  assumes f: "0 < f" and ij: "i < j" and j: "j < length GUITAR_NOTES"
    and tie: "\<bar>f - frequency (GUITAR_NOTES ! i)\<bar> = \<bar>f - frequency (GUITAR_NOTES ! j)\<bar>"
    and mn: "\<forall>k < length GUITAR_NOTES.
               \<bar>f - frequency (GUITAR_NOTES ! i)\<bar> \<le> \<bar>f - frequency (GUITAR_NOTES ! k)\<bar>"
  shows "findClosestNote f = Some (GUITAR_NOTES ! i)"
proof -
  let ?fr = "\<lambda>k. frequency (GUITAR_NOTES ! k)"
  from findClosestNote_scan[OF f] obtain k where k: "first_argmin f GUITAR_NOTES k"
    and r: "findClosestNote f =
            (if \<bar>f - ?fr k\<bar> > ?fr k * 0.05 then None else Some (GUITAR_NOTES ! k))" by blast
  have klen: "k < length GUITAR_NOTES" and kmin: "\<bar>f - ?fr k\<bar> \<le> \<bar>f - ?fr i\<bar>"
    and kfirst: "\<And>a. a < k \<Longrightarrow> \<bar>f - ?fr k\<bar> < \<bar>f - ?fr a\<bar>"
    using k ij j unfolding first_argmin_def by auto
  have eq: "\<bar>f - ?fr k\<bar> = \<bar>f - ?fr i\<bar>" using kmin mn klen by fastforce
  have "\<not> i < k" using kfirst[of i] eq by auto
  moreover have "\<not> k < i"
  proof
    assume "k < i"
    then have "?fr k < ?fr i" "?fr i < ?fr j"
      using G_frequency_mono ij j by auto
    with eq tie show False by linarith
  qed
  ultimately have ki: "k = i" by linarith
  have mid: "?fr i < ?fr j" using G_frequency_mono[OF ij j] .
  have "\<not> Suc i < j"
  proof
    assume s: "Suc i < j"
    then have "?fr i < ?fr (Suc i)" "?fr (Suc i) < ?fr j"
      using G_frequency_mono j by auto
    moreover have "\<bar>f - ?fr i\<bar> \<le> \<bar>f - ?fr (Suc i)\<bar>" using mn s j by auto
    ultimately show False using tie by linarith
  qed
  then have js: "j = Suc i" using ij by linarith
  have "(?fr (Suc i) - ?fr i) / 2 \<le> ?fr i * 0.05"
    using G_adjacent_gap[of i] j js by simp
  moreover have "\<bar>f - ?fr i\<bar> = (?fr (Suc i) - ?fr i) / 2"
  proof -
    have mid': "?fr i < ?fr (Suc i)" using mid js by simp
    have tie': "\<bar>f - ?fr i\<bar> = \<bar>f - ?fr (Suc i)\<bar>" using tie js by simp
    from tie_midpoint[OF mid' tie'] show ?thesis .
  qed
  ultimately have "\<not> \<bar>f - ?fr i\<bar> > ?fr i * 0.05" by linarith
  then show ?thesis using r ki by simp
qed

theorem findClosestNote_tie_lowest_index_witness:
  "(0::real) < 84.86 \<and> (0::nat) < 1 \<and> 1 < length GUITAR_NOTES \<and>
   \<bar>84.86 - frequency (GUITAR_NOTES ! 0)\<bar> = \<bar>84.86 - frequency (GUITAR_NOTES ! 1)\<bar> \<and>
   findClosestNote 84.86 = Some (GUITAR_NOTES ! 0)"
proof -
  have h1: "(0::real) < 84.86" by simp
  have h2: "(0::nat) < 1" by simp
  have h3: "1 < length GUITAR_NOTES" by (simp add: GUITAR_NOTES_def)
  have h4: "\<bar>84.86 - frequency (GUITAR_NOTES ! 0)\<bar> = \<bar>84.86 - frequency (GUITAR_NOTES ! 1)\<bar>"
    by (simp add: GUITAR_NOTES_def mk_note_def)
  have "\<forall>x \<in> set GUITAR_NOTES. \<bar>84.86 - frequency (GUITAR_NOTES ! 0)\<bar> \<le> \<bar>84.86 - frequency x\<bar>"
    by (simp add: GUITAR_NOTES_def mk_note_def)
  then have h5: "\<forall>k < length GUITAR_NOTES.
       \<bar>84.86 - frequency (GUITAR_NOTES ! 0)\<bar> \<le> \<bar>84.86 - frequency (GUITAR_NOTES ! k)\<bar>"
    by auto
  from findClosestNote_tie_lowest_index[OF h1 h2 h3 h4 h5] h1 h2 h3 h4 show ?thesis by blast
qed

section \<open>Properties of the sequence generator\<close>

lemma G_length: "length GUITAR_NOTES = 44"
  by (simp add: GUITAR_NOTES_def)

lemma G_names_distinct: "distinct (map name GUITAR_NOTES)"
  by (simp add: GUITAR_NOTES_def mk_note_def)

lemma findIndex_distinct_nth:
  "distinct (map g xs) \<Longrightarrow> k < length xs \<Longrightarrow> findIndex (\<lambda>x. g x = g (xs ! k)) xs = int k"
proof (induction xs arbitrary: k)
  case Nil
  then show ?case by simp
next
  case (Cons a xs)
  show ?case
  proof (cases k)
    case 0
    then show ?thesis by simp
  next
    case (Suc m)
    with Cons.prems have m: "m < length xs" and d: "distinct (map g xs)"
      and na: "g a \<notin> g ` set xs" by auto
    from m na have "g a \<noteq> g (xs ! m)" by (metis imageI nth_mem)
    moreover have "findIndex (\<lambda>x. g x = g (xs ! m)) xs = int m" using Cons.IH[OF d m] .
    ultimately show ?thesis using Suc by (simp add: Let_def)
  qed
qed

lemma catalogIndex_nth: "k < length GUITAR_NOTES \<Longrightarrow> catalogIndex (GUITAR_NOTES ! k) = int k"
  unfolding catalogIndex_def by (rule findIndex_distinct_nth[OF G_names_distinct])

lemma rand_floor_range:
  assumes "0 < n"
  shows "0 \<le> \<lfloor>Rep_rand r * real_of_int n\<rfloor> \<and> \<lfloor>Rep_rand r * real_of_int n\<rfloor> < n"
proof -
  have r: "0 \<le> Rep_rand r" "Rep_rand r < 1" using Rep_rand[of r] by auto
  have "0 \<le> Rep_rand r * real_of_int n" using r assms by simp
  moreover have "Rep_rand r * real_of_int n < real_of_int n" using r assms by simp
  ultimately show ?thesis by (simp add: floor_less_iff)
qed

lemma getRandomNote_index:
  "\<exists>k < length GUITAR_NOTES. getRandomNote r = GUITAR_NOTES ! k"
proof -
  have "0 \<le> \<lfloor>Rep_rand r * 44\<rfloor> \<and> \<lfloor>Rep_rand r * 44\<rfloor> < 44"
    using rand_floor_range[of 44 r] by simp
  then have "nat \<lfloor>Rep_rand r * 44\<rfloor> < 44" by linarith
  then show ?thesis
    unfolding getRandomNote_def Let_def G_length
    by (intro exI[of _ "nat \<lfloor>Rep_rand r * 44\<rfloor>"]) simp
qed

lemma getRandomNoteWithinInterval_index:
  assumes k: "k < length GUITAR_NOTES"
  shows "\<exists>j < length GUITAR_NOTES.
           getRandomNoteWithinInterval (GUITAR_NOTES ! k) M r = GUITAR_NOTES ! j \<and>
           \<bar>int k - int j\<bar> \<le> int M"
proof -
  define lo where "lo = max 0 (int k - int M)"
  define hi where "hi = min (int (length GUITAR_NOTES) - 1) (int k + int M)"
  define j where "j = lo + \<lfloor>Rep_rand r * real_of_int (hi - lo + 1)\<rfloor>"
  have lohi: "0 \<le> lo" "lo \<le> int k" "int k \<le> hi" "hi < int (length GUITAR_NOTES)"
    "int k - int M \<le> lo" "hi \<le> int k + int M"
    using k unfolding lo_def hi_def by auto
  then have "0 < hi - lo + 1" by linarith
  from rand_floor_range[OF this, of r]
  have jr: "lo \<le> j" "j \<le> hi" unfolding j_def by auto
  have idx: "findIndex (\<lambda>note. name note = name (GUITAR_NOTES ! k)) GUITAR_NOTES = int k"
    by (rule findIndex_distinct_nth[OF G_names_distinct k])
  have "getRandomNoteWithinInterval (GUITAR_NOTES ! k) M r = GUITAR_NOTES ! nat j"
    unfolding getRandomNoteWithinInterval_def idx Let_def j_def lo_def hi_def by simp
  moreover have "nat j < length GUITAR_NOTES" using jr lohi by linarith
  moreover have "\<bar>int k - int (nat j)\<bar> \<le> int M" using jr lohi by linarith
  ultimately show ?thesis by blast
qed

lemma within_interval_snoc:
  assumes "within_interval M xs" "xs \<noteq> []"
    "\<bar>catalogIndex (xs ! (length xs - 1)) - catalogIndex x\<bar> \<le> int M"
  shows "within_interval M (xs @ [x])"
  unfolding within_interval_def
proof (intro allI impI)
  fix i assume "Suc i < length (xs @ [x])"
  then consider "Suc i < length xs" | "Suc i = length xs" by fastforce
  then show "\<bar>catalogIndex ((xs @ [x]) ! i) - catalogIndex ((xs @ [x]) ! Suc i)\<bar> \<le> int M"
  proof cases
    case 1
    then show ?thesis using assms(1) by (simp add: within_interval_def nth_append)
  next
    case 2
    then have "i = length xs - 1" "i < length xs" by auto
    then show ?thesis using assms(3) 2 by (simp add: nth_append)
  qed
qed

lemma generate_loop_invariant:
  "length newNotes = i \<Longrightarrow> 1 \<le> i \<Longrightarrow> i \<le> notesPerTurn settings \<Longrightarrow>
   set newNotes \<subseteq> set GUITAR_NOTES \<Longrightarrow> within_interval (maxInterval settings) newNotes \<Longrightarrow>
   length (generate_loop settings rnd i newNotes) = notesPerTurn settings \<and>
   set (generate_loop settings rnd i newNotes) \<subseteq> set GUITAR_NOTES \<and>
   within_interval (maxInterval settings) (generate_loop settings rnd i newNotes)"
proof (induction settings rnd i newNotes rule: generate_loop.induct)
  case (1 settings rnd i newNotes)
  show ?case
  proof (cases "i < notesPerTurn settings")
    case False
    then have "generate_loop settings rnd i newNotes = newNotes"
      by (subst generate_loop.simps) simp
    with False "1.prems" show ?thesis by simp
  next
    case True
    let ?prev = "newNotes ! (i - 1)"
    let ?new = "getRandomNoteWithinInterval ?prev (maxInterval settings) (rnd i)"
    have "?prev \<in> set GUITAR_NOTES" using "1.prems" by (metis One_nat_def Suc_le_lessD diff_less nth_mem subsetD zero_less_one)
    then obtain k where k: "k < length GUITAR_NOTES" "?prev = GUITAR_NOTES ! k"
      by (metis in_set_conv_nth)
    from getRandomNoteWithinInterval_index[OF k(1), of "maxInterval settings" "rnd i"]
    obtain j where j: "j < length GUITAR_NOTES" "?new = GUITAR_NOTES ! j"
      "\<bar>int k - int j\<bar> \<le> int (maxInterval settings)" unfolding k(2) by blast
    have step: "\<bar>catalogIndex (newNotes ! (length newNotes - 1)) - catalogIndex ?new\<bar>
                  \<le> int (maxInterval settings)"
      using "1.prems"(1) k j by (simp add: catalogIndex_nth)
    have ne: "newNotes \<noteq> []" using "1.prems" by auto
    have "length (newNotes @ [?new]) = i + 1" using "1.prems" by simp
    moreover have "1 \<le> i + 1" "i + 1 \<le> notesPerTurn settings" using True by auto
    moreover have "set (newNotes @ [?new]) \<subseteq> set GUITAR_NOTES" using "1.prems" j by simp
    moreover have "within_interval (maxInterval settings) (newNotes @ [?new])"
      using within_interval_snoc[OF "1.prems"(5) ne step] .
    ultimately have "length (generate_loop settings rnd (i + 1) (newNotes @ [?new])) = notesPerTurn settings \<and>
       set (generate_loop settings rnd (i + 1) (newNotes @ [?new])) \<subseteq> set GUITAR_NOTES \<and>
       within_interval (maxInterval settings) (generate_loop settings rnd (i + 1) (newNotes @ [?new]))"
      using "1.IH"[OF True refl refl] by blast
    moreover have "generate_loop settings rnd i newNotes = generate_loop settings rnd (i + 1) (newNotes @ [?new])"
      using True by (subst generate_loop.simps) (simp add: Let_def)
    ultimately show ?thesis by simp
  qed
qed

text \<open>
  Claim C5. For every generated sequence with configured length \<open>L \<ge> 1\<close> and interval
  bound \<open>M \<ge> 0\<close> (a natural number here): the sequence has exactly \<open>L\<close> notes, all
  from the catalog, and the catalog indices of every adjacent pair differ by at most \<open>M\<close>.
  Repeated notes are permitted. This holds for all values \<open>Math.random\<close> may return.
\<close>

theorem generateNewSequence_length_interval:
  assumes "1 \<le> notesPerTurn settings"
  shows "length (generateNewSequence settings rnd) = notesPerTurn settings \<and>
         set (generateNewSequence settings rnd) \<subseteq> set GUITAR_NOTES \<and>
         (\<forall>i. Suc i < notesPerTurn settings \<longrightarrow>
              \<bar>catalogIndex (generateNewSequence settings rnd ! i) -
               catalogIndex (generateNewSequence settings rnd ! Suc i)\<bar> \<le> int (maxInterval settings))"
proof -
  obtain k where k: "k < length GUITAR_NOTES" "getRandomNote (rnd 0) = GUITAR_NOTES ! k"
    using getRandomNote_index by blast
  have "within_interval (maxInterval settings) [getRandomNote (rnd 0)]"
    by (simp add: within_interval_def)
  moreover have "set [getRandomNote (rnd 0)] \<subseteq> set GUITAR_NOTES" using k by simp
  ultimately have inv: "length (generate_loop settings rnd 1 [getRandomNote (rnd 0)]) = notesPerTurn settings \<and>
     set (generate_loop settings rnd 1 [getRandomNote (rnd 0)]) \<subseteq> set GUITAR_NOTES \<and>
     within_interval (maxInterval settings) (generate_loop settings rnd 1 [getRandomNote (rnd 0)])"
    using generate_loop_invariant[of "[getRandomNote (rnd 0)]" 1 settings rnd] assms by simp
  then show ?thesis
    unfolding generateNewSequence_def Let_def within_interval_def by simp
qed

theorem generateNewSequence_length_interval_witness:
  "length (generateNewSequence
      \<lparr>notesPerTurn = 3, maxInterval = 2, repetitionsRequired = 1, totalSequences = 0\<rparr>
      (\<lambda>i. Abs_rand (1 / 2))) = 3 \<and>
   \<bar>catalogIndex (generateNewSequence
        \<lparr>notesPerTurn = 3, maxInterval = 2, repetitionsRequired = 1, totalSequences = 0\<rparr>
        (\<lambda>i. Abs_rand (1 / 2)) ! 0) -
    catalogIndex (generateNewSequence
        \<lparr>notesPerTurn = 3, maxInterval = 2, repetitionsRequired = 1, totalSequences = 0\<rparr>
        (\<lambda>i. Abs_rand (1 / 2)) ! 1)\<bar> \<le> 2 \<and>
   \<bar>catalogIndex (generateNewSequence
        \<lparr>notesPerTurn = 3, maxInterval = 2, repetitionsRequired = 1, totalSequences = 0\<rparr>
        (\<lambda>i. Abs_rand (1 / 2)) ! 1) -
    catalogIndex (generateNewSequence
        \<lparr>notesPerTurn = 3, maxInterval = 2, repetitionsRequired = 1, totalSequences = 0\<rparr>
        (\<lambda>i. Abs_rand (1 / 2)) ! 2)\<bar> \<le> 2"
proof -
  let ?S = "\<lparr>notesPerTurn = 3, maxInterval = 2, repetitionsRequired = 1, totalSequences = 0\<rparr>"
  let ?R = "\<lambda>i::nat. Abs_rand (1 / 2)"
  have h: "1 \<le> notesPerTurn ?S" by simp
  note th = generateNewSequence_length_interval[OF h, of ?R]
  from th have len: "length (generateNewSequence ?S ?R) = 3" by simp
  from th have adj: "\<And>i. Suc i < 3 \<Longrightarrow>
      \<bar>catalogIndex (generateNewSequence ?S ?R ! i) -
       catalogIndex (generateNewSequence ?S ?R ! Suc i)\<bar> \<le> 2" by simp
  from adj[of 0] adj[of 1] len show ?thesis by (simp add: numeral_2_eq_2)
qed

lemma generateNewSequence_example:
  "map name (generateNewSequence
      \<lparr>notesPerTurn = 3, maxInterval = 2, repetitionsRequired = 1, totalSequences = 0\<rparr>
      (\<lambda>i. if i = 1 then Abs_rand (9 / 10) else Abs_rand (1 / 2))) = [''D4'', ''E4'', ''E4'']"
  by (simp add: generateNewSequence_def generate_loop.simps getRandomNote_def
        getRandomNoteWithinInterval_def Abs_rand_inverse GUITAR_NOTES_def mk_note_def Let_def)


section \<open>Properties of the detection session\<close>

lemma window_bounded_pushHistory: "window_bounded s \<Longrightarrow> window_bounded (pushHistory x s)"
  by (auto simp: window_bounded_def pushHistory_def Let_def)

lemma window_bounded_clearHistory: "window_bounded s \<Longrightarrow> window_bounded (clearHistory s)"
  by (auto simp: window_bounded_def clearHistory_def)

lemma window_bounded_webTick: "window_bounded s \<Longrightarrow> window_bounded (fst (webTick rms d1 d2 d3 s))"
  by (simp add: webTick_def Let_def window_bounded_pushHistory window_bounded_clearHistory
        split: option.splits)

lemma window_bounded_resumedWebTick:
  "window_bounded s \<Longrightarrow> window_bounded (fst (resumedWebTick rms d1 d2 d3 s))"
  by (simp add: resumedWebTick_def Let_def window_bounded_pushHistory split: option.splits)

lemma window_bounded_nativeTick: "window_bounded s \<Longrightarrow> window_bounded (fst (nativeTick r1 r2 r3 s))"
  by (simp add: nativeTick_def Let_def window_bounded_pushHistory window_bounded_clearHistory
        split: option.splits)

lemma window_bounded_enhancedTick:
  "window_bounded s \<Longrightarrow> window_bounded (fst (enhancedTick r1 r2 r3 r4 s))"
  by (simp add: enhancedTick_def Let_def window_bounded_pushHistory split: option.splits)

lemma window_bounded_start: "window_bounded s \<Longrightarrow> window_bounded (startPitchDetection os perm env s)"
  by (auto simp: window_bounded_def startPitchDetection_def startSimulatedPitchDetection_def
        startEnhancedSimulatedDetection_def startNativePitchDetection_def
        startWebPitchDetection_def Let_def split: permission.splits web_env.splits)

lemma window_bounded_stop: "window_bounded s \<Longrightarrow> window_bounded (stopPitchDetection s)"
  by (simp add: window_bounded_def stopPitchDetection_def)

lemma window_bounded_pause: "window_bounded s \<Longrightarrow> window_bounded (pausePitchDetection s)"
  by (simp add: window_bounded_def pausePitchDetection_def Let_def)

lemma window_bounded_resume: "window_bounded s \<Longrightarrow> window_bounded (resumePitchDetection os s)"
  by (simp add: window_bounded_def resumePitchDetection_def Let_def
        startEnhancedSimulatedDetection_def startNativePitchDetection_def)

lemma window_bounded_step: "window_bounded s \<Longrightarrow> window_bounded (fst (step os e s))"
proof (cases e)
  case (PitchTick rms d1 d2 d3 r1 r2 r3 r4)
  assume b: "window_bounded s"
  show ?thesis
  proof (cases "pitchDetectionInterval s")
    case None
    with b PitchTick show ?thesis by simp
  next
    case (Some l)
    with b PitchTick show ?thesis
      by (cases l) (simp_all add: window_bounded_webTick window_bounded_resumedWebTick
            split: prod.splits, simp add: window_bounded_def)
  qed
next
  case (MobileTick r1 r2 r3 r4)
  assume b: "window_bounded s"
  show ?thesis
  proof (cases "mobileRecordingInterval s")
    case None
    with b MobileTick show ?thesis by simp
  next
    case (Some l)
    with b MobileTick show ?thesis
      by (cases l) (simp_all add: window_bounded_nativeTick window_bounded_enhancedTick)
  qed
qed (simp_all add: window_bounded_start window_bounded_stop window_bounded_pause
       window_bounded_resume, simp add: window_bounded_def setVolumeThreshold_def)

lemma window_bounded_run: "window_bounded s \<Longrightarrow> window_bounded (fst (run os es s))"
proof (induction es arbitrary: s)
  case Nil
  then show ?case by simp
next
  case (Cons e es)
  obtain s1 out1 where st: "step os e s = (s1, out1)" by (cases "step os e s")
  obtain s2 out2 where rn: "run os es s1 = (s2, out2)" by (cases "run os es s1")
  from window_bounded_step[OF Cons.prems, of os e] st have "window_bounded s1" by simp
  from Cons.IH[OF this] rn have "window_bounded s2" by simp
  then show ?case by (simp add: st rn)
qed

lemma window_bounded_initial: "window_bounded initialAudioUtils"
  by (simp add: window_bounded_def initialAudioUtils_def)

text \<open>
  Claim C4. The detection window never holds more than \<open>historySize\<close> samples: after
  any run of session calls and timer ticks from the initial state its length is at most
  \<open>historySize\<close>. A push below capacity appends; a push at capacity drops exactly the
  oldest sample and appends the new one, so the order is first in, first out.
\<close>

theorem detectionHistory_bounded_fifo:
  "length (detectionHistory (fst (run os es initialAudioUtils))) \<le> historySize (fst (run os es initialAudioUtils)) \<and>
   (length (detectionHistory s) < historySize s \<longrightarrow>
      detectionHistory (pushHistory x s) = detectionHistory s @ [x]) \<and>
   (length (detectionHistory s) = historySize s \<longrightarrow> 0 < historySize s \<longrightarrow>
      detectionHistory (pushHistory x s) = tl (detectionHistory s) @ [x])"
proof (intro conjI impI)
  show "length (detectionHistory (fst (run os es initialAudioUtils))) \<le> historySize (fst (run os es initialAudioUtils))"
    using window_bounded_run[OF window_bounded_initial, of os es] by (simp add: window_bounded_def)
next
  assume "length (detectionHistory s) < historySize s"
  then show "detectionHistory (pushHistory x s) = detectionHistory s @ [x]"
    by (simp add: pushHistory_def Let_def)
next
  assume "length (detectionHistory s) = historySize s" "0 < historySize s"
  then show "detectionHistory (pushHistory x s) = tl (detectionHistory s) @ [x]"
    by (cases "detectionHistory s") (auto simp: pushHistory_def Let_def)
qed


theorem detectionHistory_bounded_fifo_witness:
  "detectionHistory (pushHistory 6 (initialAudioUtils\<lparr>detectionHistory := [1, 2, 3]\<rparr>)) = [1, 2, 3, 6] \<and>
   detectionHistory (pushHistory 6 (initialAudioUtils\<lparr>detectionHistory := [1, 2, 3, 4, 5]\<rparr>)) = [2, 3, 4, 5, 6]"
  using detectionHistory_bounded_fifo[of Web "[]" "initialAudioUtils\<lparr>detectionHistory := [1, 2, 3]\<rparr>" 6]
        detectionHistory_bounded_fifo[of Web "[]" "initialAudioUtils\<lparr>detectionHistory := [1, 2, 3, 4, 5]\<rparr>" 6]
  by (simp add: initialAudioUtils_def)


lemmas session_defs =
  startPitchDetection_def startWebPitchDetection_def startSimulatedPitchDetection_def
  startNativePitchDetection_def startEnhancedSimulatedDetection_def
  pausePitchDetection_def resumePitchDetection_def stopPitchDetection_def
  initialAudioUtils_def listening_def

lemmas tick_defs =
  webTick_def resumedWebTick_def validPitches_def runDetectors_def pushHistory_def
  clearHistory_def averageOf_def calculateVariance_def emit_def

subsection \<open>The loops the application lets tick\<close>

























text \<open>
  The same session at 440 Hz: the third tick reports the volume and then A4 with the volume.
\<close>

lemma resumedWebTick_example_440:
  "snd (run Web (concat (map events_of [Init Granted MediaOk, ResumeCall,
        PitchTimer 1 (FreqObj 440) (Num 440) (Num 440) (Abs_rand 0) (Abs_rand 0) (Abs_rand 0) (Abs_rand 0),
        PitchTimer 1 (FreqObj 440) (Num 440) (Num 440) (Abs_rand 0) (Abs_rand 0) (Abs_rand 0) (Abs_rand 0),
        PitchTimer 1 (FreqObj 440) (Num 440) (Num 440) (Abs_rand 0) (Abs_rand 0) (Abs_rand 0) (Abs_rand 0)]))
      initialAudioUtils)
   = [(None, 1), (None, 1), (None, 1), (Some (GUITAR_NOTES ! 29), 1)]"
  by (simp add: session_defs tick_defs filter_verdict_def Let_def findClosestNote_def
        GUITAR_NOTES_def mk_note_def)

text \<open>
  The loop of \<open>startWebPitchDetection\<close> on its own: when the window is stable and no
  note resolves, it does not call the callback at all (three ticks at 1100 Hz, two
  emissions). The application never lets this loop tick: it pauses before the first tick,
  and a resume installs the other loop.
\<close>

lemma webTick_stable_unresolved_silent:
  "run Web [Start Granted MediaOk,
            PitchTick 0.5 (FreqObj 1100) (Num 1100) (Num 1100) (Abs_rand 0) (Abs_rand 0) (Abs_rand 0) (Abs_rand 0),
            PitchTick 0.5 (FreqObj 1100) (Num 1100) (Num 1100) (Abs_rand 0) (Abs_rand 0) (Abs_rand 0) (Abs_rand 0),
            PitchTick 0.5 (FreqObj 1100) (Num 1100) (Num 1100) (Abs_rand 0) (Abs_rand 0) (Abs_rand 0) (Abs_rand 0)]
       initialAudioUtils
   = ((startPitchDetection Web Granted MediaOk initialAudioUtils)\<lparr>detectionHistory := [1100, 1100, 1100]\<rparr>,
      [(None, 0.5), (None, 0.5)]) \<and>
   calculateVariance [1100, 1100, 1100] (averageOf [1100, 1100, 1100]) < 5 \<and>
   findClosestNote (averageOf [1100, 1100, 1100]) = None"
  by (simp add: session_defs tick_defs Let_def findClosestNote_def GUITAR_NOTES_def mk_note_def)

text \<open>
  Claim C3, at the input where the code departs from it. After two loud ticks at 440 Hz
  the window is \<open>[440, 440]\<close>. Detection is paused and resumed, and the next frame is
  below the threshold: the resumed loop reports \<open>(none, 0.001)\<close> and leaves the window
  as it was. The loop installed at start, on the same frames without the pause and resume,
  clears it.
\<close>

theorem resumedWebTick_keeps_window_below_threshold:
  "run Web [Start Granted MediaOk,
            PitchTick 0.5 (FreqObj 440) (Num 440) (Num 440) (Abs_rand 0) (Abs_rand 0) (Abs_rand 0) (Abs_rand 0),
            PitchTick 0.5 (FreqObj 440) (Num 440) (Num 440) (Abs_rand 0) (Abs_rand 0) (Abs_rand 0) (Abs_rand 0),
            Pause, Resume,
            PitchTick 0.001 Null Null Null (Abs_rand 0) (Abs_rand 0) (Abs_rand 0) (Abs_rand 0)]
       initialAudioUtils
   = ((startPitchDetection Web Granted MediaOk initialAudioUtils)
        \<lparr>detectionHistory := [440, 440], pitchDetectionInterval := Some ResumedWebLoop\<rparr>,
      [(None, 0.5), (None, 0.5), (None, 0.001)]) \<and>
   run Web [Start Granted MediaOk,
            PitchTick 0.5 (FreqObj 440) (Num 440) (Num 440) (Abs_rand 0) (Abs_rand 0) (Abs_rand 0) (Abs_rand 0),
            PitchTick 0.5 (FreqObj 440) (Num 440) (Num 440) (Abs_rand 0) (Abs_rand 0) (Abs_rand 0) (Abs_rand 0),
            PitchTick 0.001 Null Null Null (Abs_rand 0) (Abs_rand 0) (Abs_rand 0) (Abs_rand 0)]
       initialAudioUtils
   = ((startPitchDetection Web Granted MediaOk initialAudioUtils)\<lparr>detectionHistory := []\<rparr>,
      [(None, 0.5), (None, 0.5), (None, 0.001)])"
  by (simp add: session_defs tick_defs Let_def)

text \<open>
  The same on a session as the application drives it: initialisation, a resume, two loud
  ticks at 440 Hz on the resumed loop, then a frame below the threshold. The window is
  still \<open>[440, 440]\<close>.
\<close>

lemma resumedWebTick_keeps_window_in_session:
  "detectionHistory (app_state Web [Init Granted MediaOk, ResumeCall,
        PitchTimer 1 (FreqObj 440) (Num 440) (Num 440) (Abs_rand 0) (Abs_rand 0) (Abs_rand 0) (Abs_rand 0),
        PitchTimer 1 (FreqObj 440) (Num 440) (Num 440) (Abs_rand 0) (Abs_rand 0) (Abs_rand 0) (Abs_rand 0),
        PitchTimer 0.001 Null Null Null (Abs_rand 0) (Abs_rand 0) (Abs_rand 0) (Abs_rand 0)])
   = [440, 440]"
  by (simp add: app_state_def session_defs tick_defs Let_def)

text \<open>
  Claim C7, at the input where the code departs from it. The session is listening on the
  web and is paused. A second \<open>pause()\<close>, called while not listening, cancels no timer but
  overwrites \<open>pitchDetectionWasRunning\<close> with false before its guard; the following
  \<open>resume()\<close> then returns at its own guard and the session stays paused, whereas
  \<open>resume()\<close> after the single pause restarts listening.
\<close>

theorem pause_while_paused_blocks_resume:
  "listening (resumePitchDetection Web (pausePitchDetection
       (startPitchDetection Web Granted MediaOk initialAudioUtils))) \<and>
   \<not> listening (resumePitchDetection Web (pausePitchDetection (pausePitchDetection
       (startPitchDetection Web Granted MediaOk initialAudioUtils)))) \<and>
   \<not> listening (pausePitchDetection (startPitchDetection Web Granted MediaOk initialAudioUtils)) \<and>
   pitchDetectionWasRunning (pausePitchDetection
       (startPitchDetection Web Granted MediaOk initialAudioUtils)) \<and>
   \<not> pitchDetectionWasRunning (pausePitchDetection (pausePitchDetection
       (startPitchDetection Web Granted MediaOk initialAudioUtils))) \<and>
   isPitchDetectionPaused (resumePitchDetection Web (pausePitchDetection (pausePitchDetection
       (startPitchDetection Web Granted MediaOk initialAudioUtils))))"
  by (simp add: session_defs Let_def)

theorem pause_while_paused_blocks_resume_witness:
  "\<not> listening (resumePitchDetection Web (pausePitchDetection (pausePitchDetection
       (startPitchDetection Web Granted MediaOk initialAudioUtils)))) \<and>
   listening (resumePitchDetection Web (pausePitchDetection
       (startPitchDetection Web Granted MediaOk initialAudioUtils)))"
  using pause_while_paused_blocks_resume by blast

text \<open>The other loops report the volume on every tick that passes their guard.\<close>

lemma nativeTick_always_reports:
  "isMobileListening s \<Longrightarrow> onPitchDetected s \<Longrightarrow>
     \<exists>note. snd (nativeTick r1 r2 r3 s) = [(note, Rep_rand r1 * 0.1)]"
  by (simp add: nativeTick_def Let_def split: option.splits)

lemma enhancedTick_always_reports:
  "isMobileListening s \<Longrightarrow> onPitchDetected s \<Longrightarrow>
     \<exists>note. snd (enhancedTick r1 r2 r3 r4 s) = [(note, Rep_rand r1 * 0.2 + 0.05)]"
  by (simp add: enhancedTick_def Let_def split: option.splits)

lemma resumedWebTick_always_reports:
  "analyser s \<Longrightarrow> recordingDataArray s \<Longrightarrow> onPitchDetected s \<Longrightarrow>
     \<exists>rest. snd (resumedWebTick rms d1 d2 d3 s) = (None, rms) # rest"
  by (simp add: resumedWebTick_def emit_def Let_def split: option.splits)

text \<open>Below the threshold, the loops installed at start report none and clear the window.\<close>

lemma webTick_below_threshold:
  "analyser s \<Longrightarrow> recordingDataArray s \<Longrightarrow> pitchDetector s \<Longrightarrow> onPitchDetected s \<Longrightarrow>
   rms < volumeThreshold s \<Longrightarrow>
     snd (webTick rms d1 d2 d3 s) = [(None, rms)] \<and> detectionHistory (fst (webTick rms d1 d2 d3 s)) = []"
  by (simp add: webTick_def emit_def clearHistory_def)

lemma nativeTick_below_threshold:
  "isMobileListening s \<Longrightarrow> onPitchDetected s \<Longrightarrow> Rep_rand r1 * 0.1 < volumeThreshold s \<Longrightarrow>
     snd (nativeTick r1 r2 r3 s) = [(None, Rep_rand r1 * 0.1)] \<and>
     detectionHistory (fst (nativeTick r1 r2 r3 s)) = []"
  by (simp add: nativeTick_def clearHistory_def Let_def)

section \<open>Properties of the training orchestrator\<close>

text \<open>A repeated report of the held note does nothing; a different report runs the effect.\<close>

lemma detectionEvent_repeated:
  "detectedNote t = nt \<Longrightarrow> detectionEvent os settings nt (t, w) = (t, w)"
  by (simp add: detectionEvent_def)

lemma detectionEvent_changed:
  "detectedNote t \<noteq> nt \<Longrightarrow>
     detectionEvent os settings nt (t, w) = detectionEffect os settings (t\<lparr>detectedNote := nt\<rparr>, w)"
  by (simp add: detectionEvent_def)

lemma detectionEvent_ignored:
  assumes "\<not> (length (notesPlayed t) < length (currentNotes t) \<and>
              name dn = name (currentNotes t ! length (notesPlayed t)))"
  shows "detectionEvent os settings (Some dn) (t, w) = (t\<lparr>detectedNote := Some dn\<rparr>, w)"
proof (cases "detectedNote t = Some dn")
  case True
  then have "t\<lparr>detectedNote := Some dn\<rparr> = t" by simp
  with True show ?thesis by (simp add: detectionEvent_repeated)
next
  case False
  with assms show ?thesis
    by (auto simp: detectionEvent_changed detectionEffect_def Let_def)
qed

lemma detectionEvent_none:
  "detectionEvent os settings None (t, w) = (t\<lparr>detectedNote := None\<rparr>, w)"
proof (cases "detectedNote t = None")
  case True
  then have "t\<lparr>detectedNote := None\<rparr> = t" by simp
  with True show ?thesis by (simp add: detectionEvent_repeated)
next
  case False
  then show ?thesis by (simp add: detectionEvent_changed detectionEffect_def)
qed

lemma detectionEvent_match:
  assumes "\<not> isInitializing t" "detectedNote t \<noteq> Some dn"
    "length (notesPlayed t) < length (currentNotes t)"
    "name dn = name (currentNotes t ! length (notesPlayed t))"
  shows "detectionEvent os settings (Some dn) (t, w) =
     (if length (notesPlayed t) + 1 = length (currentNotes t)
      then handleSequenceCompleted os settings
             (t\<lparr>detectedNote := Some dn, notesPlayed := notesPlayed t @ [length (notesPlayed t)]\<rparr>, w)
      else (t\<lparr>detectedNote := Some dn, notesPlayed := notesPlayed t @ [length (notesPlayed t)]\<rparr>, w))"
  using assms by (auto simp: detectionEvent_changed detectionEffect_def Let_def)

lemma handleSequenceCompleted_progress:
  "correctSequencesPlayed (fst (handleSequenceCompleted os settings (t, w))) =
     correctSequencesPlayed t + 1 \<and>
   notesPlayed (fst (handleSequenceCompleted os settings (t, w))) =
     (if repetitionsRequired settings \<le> correctSequencesPlayed t + 1 then notesPlayed t else [])"
  by (simp add: handleSequenceCompleted_def handleTrainingStepComplete_def Let_def)

text \<open>
  Claim C6 as stated fails: a detection event carrying exactly the expected note appends
  nothing when it is the note already held. On the sequence C4, C4 the first report of C4
  matches position 0; the second report of C4 carries the note expected at position 1 and
  changes nothing.
\<close>

theorem detectionEvent_repeated_note_counterexample:
  "name (GUITAR_NOTES ! 20) = name ([GUITAR_NOTES ! 20, GUITAR_NOTES ! 20] ! 1) \<and>
   fst (detectionEvents Web defaultSettings [Some (GUITAR_NOTES ! 20), Some (GUITAR_NOTES ! 20)]
     (\<lparr>currentNotes = [GUITAR_NOTES ! 20, GUITAR_NOTES ! 20], detectedNote = None,
        notesPlayed = [], correctSequencesPlayed = 0, isTrainingComplete = False,
        sequenceInProgress = False, isInitializing = False, currentSequence = 1, timers = []\<rparr>,
      \<lparr>audio = initialAudioUtils, outcomes = [], errorLog = []\<rparr>)) =
   \<lparr>currentNotes = [GUITAR_NOTES ! 20, GUITAR_NOTES ! 20], detectedNote = Some (GUITAR_NOTES ! 20),
     notesPlayed = [0], correctSequencesPlayed = 0, isTrainingComplete = False,
     sequenceInProgress = False, isInitializing = False, currentSequence = 1, timers = []\<rparr>"
  by (simp add: detectionEvent_def detectionEffect_def Let_def)

text \<open>
  Claim C6, amended. While awaiting input (initialisation over), a detection event carrying
  a note other than the one already held is compared by name with the expected note at
  position \<open>length notesPlayed\<close>. A match appends that position to \<open>notesPlayed\<close>; when
  it was the last position the repetition count goes up by one, and the positions are kept
  if that reaches \<open>repetitionsRequired\<close> and reset for the next repetition otherwise. A
  mismatch, and a report of the note already held, change nothing but the displayed note:
  \<open>notesPlayed\<close> and \<open>correctSequencesPlayed\<close> stay as they are. For a two-note
  sequence with different names, the events in the wrong order match nothing on the first
  event and only position 0 on the second: progress never goes past position 0.
\<close>

theorem detectionEvent_match_or_ignore:
  assumes awaiting: "\<not> isInitializing t"
  shows
   "(detectedNote t = Some dn \<or>
     \<not> (length (notesPlayed t) < length (currentNotes t) \<and>
        name dn = name (currentNotes t ! length (notesPlayed t))) \<longrightarrow>
       detectionEvent os settings (Some dn) (t, w) = (t\<lparr>detectedNote := Some dn\<rparr>, w) \<and>
       notesPlayed (fst (detectionEvent os settings (Some dn) (t, w))) = notesPlayed t \<and>
       correctSequencesPlayed (fst (detectionEvent os settings (Some dn) (t, w))) =
         correctSequencesPlayed t) \<and>
    (detectedNote t \<noteq> Some dn \<and> length (notesPlayed t) + 1 < length (currentNotes t) \<and>
        name dn = name (currentNotes t ! length (notesPlayed t)) \<longrightarrow>
       detectionEvent os settings (Some dn) (t, w) =
         (t\<lparr>detectedNote := Some dn, notesPlayed := notesPlayed t @ [length (notesPlayed t)]\<rparr>, w)) \<and>
    (detectedNote t \<noteq> Some dn \<and> length (notesPlayed t) + 1 = length (currentNotes t) \<and>
        name dn = name (currentNotes t ! length (notesPlayed t)) \<longrightarrow>
       correctSequencesPlayed (fst (detectionEvent os settings (Some dn) (t, w))) =
         correctSequencesPlayed t + 1 \<and>
       notesPlayed (fst (detectionEvent os settings (Some dn) (t, w))) =
         (if repetitionsRequired settings \<le> correctSequencesPlayed t + 1
          then notesPlayed t @ [length (notesPlayed t)] else [])) \<and>
    (currentNotes t = [a, b] \<and> name a \<noteq> name b \<and> notesPlayed t = [] \<longrightarrow>
       notesPlayed (fst (detectionEvent os settings (Some b) (t, w))) = [] \<and>
       fst (detectionEvents os settings [Some b, Some a] (t, w)) =
         t\<lparr>detectedNote := Some a, notesPlayed := [0]\<rparr> \<and>
       snd (detectionEvents os settings [Some b, Some a] (t, w)) = w)"
proof (intro conjI impI)
  assume h: "detectedNote t = Some dn \<or>
     \<not> (length (notesPlayed t) < length (currentNotes t) \<and>
        name dn = name (currentNotes t ! length (notesPlayed t)))"
  have same: "detectionEvent os settings (Some dn) (t, w) = (t\<lparr>detectedNote := Some dn\<rparr>, w)"
  proof (cases "detectedNote t = Some dn")
    case True
    then have "t\<lparr>detectedNote := Some dn\<rparr> = t" by simp
    with True show ?thesis by (simp add: detectionEvent_repeated)
  next
    case False
    with h show ?thesis by (intro detectionEvent_ignored) blast
  qed
  show "detectionEvent os settings (Some dn) (t, w) = (t\<lparr>detectedNote := Some dn\<rparr>, w)"
    by (rule same)
  show "notesPlayed (fst (detectionEvent os settings (Some dn) (t, w))) = notesPlayed t"
    by (simp add: same)
  show "correctSequencesPlayed (fst (detectionEvent os settings (Some dn) (t, w))) =
         correctSequencesPlayed t"
    by (simp add: same)
next
  assume "detectedNote t \<noteq> Some dn \<and> length (notesPlayed t) + 1 < length (currentNotes t) \<and>
        name dn = name (currentNotes t ! length (notesPlayed t))"
  then show "detectionEvent os settings (Some dn) (t, w) =
         (t\<lparr>detectedNote := Some dn, notesPlayed := notesPlayed t @ [length (notesPlayed t)]\<rparr>, w)"
    using detectionEvent_match[OF awaiting, of dn os settings w] by simp
next
  assume h: "detectedNote t \<noteq> Some dn \<and> length (notesPlayed t) + 1 = length (currentNotes t) \<and>
        name dn = name (currentNotes t ! length (notesPlayed t))"
  then have ev: "detectionEvent os settings (Some dn) (t, w) =
         handleSequenceCompleted os settings
           (t\<lparr>detectedNote := Some dn, notesPlayed := notesPlayed t @ [length (notesPlayed t)]\<rparr>, w)"
    using detectionEvent_match[OF awaiting, of dn os settings w] by simp
  show "correctSequencesPlayed (fst (detectionEvent os settings (Some dn) (t, w))) =
         correctSequencesPlayed t + 1"
    unfolding ev using handleSequenceCompleted_progress
      [of os settings "t\<lparr>detectedNote := Some dn, notesPlayed := notesPlayed t @ [length (notesPlayed t)]\<rparr>" w]
    by simp
  show "notesPlayed (fst (detectionEvent os settings (Some dn) (t, w))) =
         (if repetitionsRequired settings \<le> correctSequencesPlayed t + 1
          then notesPlayed t @ [length (notesPlayed t)] else [])"
    unfolding ev using handleSequenceCompleted_progress
      [of os settings "t\<lparr>detectedNote := Some dn, notesPlayed := notesPlayed t @ [length (notesPlayed t)]\<rparr>" w]
    by simp
next
  assume h: "currentNotes t = [a, b] \<and> name a \<noteq> name b \<and> notesPlayed t = []"
  then have first: "detectionEvent os settings (Some b) (t, w) = (t\<lparr>detectedNote := Some b\<rparr>, w)"
    by (intro detectionEvent_ignored) auto
  then show "notesPlayed (fst (detectionEvent os settings (Some b) (t, w))) = []"
    using h by simp
  from h have ab: "Some b \<noteq> Some a" by auto
  have second: "detectionEvent os settings (Some a) (t\<lparr>detectedNote := Some b\<rparr>, w) =
      (t\<lparr>detectedNote := Some a, notesPlayed := [0]\<rparr>, w)"
    using h awaiting ab
    by (subst detectionEvent_match) simp_all
  show "fst (detectionEvents os settings [Some b, Some a] (t, w)) =
         t\<lparr>detectedNote := Some a, notesPlayed := [0]\<rparr>"
    by (simp add: first second)
  show "snd (detectionEvents os settings [Some b, Some a] (t, w)) = w"
    by (simp add: first second)
qed

theorem detectionEvent_match_or_ignore_witness:
  "fst (detectionEvents Web defaultSettings [Some (GUITAR_NOTES ! 24), Some (GUITAR_NOTES ! 20)]
     (\<lparr>currentNotes = [GUITAR_NOTES ! 20, GUITAR_NOTES ! 24], detectedNote = None,
        notesPlayed = [], correctSequencesPlayed = 0, isTrainingComplete = False,
        sequenceInProgress = False, isInitializing = False, currentSequence = 1, timers = []\<rparr>,
      \<lparr>audio = initialAudioUtils, outcomes = [], errorLog = []\<rparr>)) =
   \<lparr>currentNotes = [GUITAR_NOTES ! 20, GUITAR_NOTES ! 24], detectedNote = Some (GUITAR_NOTES ! 20),
     notesPlayed = [0], correctSequencesPlayed = 0, isTrainingComplete = False,
     sequenceInProgress = False, isInitializing = False, currentSequence = 1, timers = []\<rparr> \<and>
   fst (detectionEvent Web defaultSettings (Some (GUITAR_NOTES ! 20))
     (\<lparr>currentNotes = [GUITAR_NOTES ! 20, GUITAR_NOTES ! 24], detectedNote = None,
        notesPlayed = [], correctSequencesPlayed = 0, isTrainingComplete = False,
        sequenceInProgress = False, isInitializing = False, currentSequence = 1, timers = []\<rparr>,
      \<lparr>audio = initialAudioUtils, outcomes = [], errorLog = []\<rparr>)) =
   \<lparr>currentNotes = [GUITAR_NOTES ! 20, GUITAR_NOTES ! 24], detectedNote = Some (GUITAR_NOTES ! 20),
     notesPlayed = [0], correctSequencesPlayed = 0, isTrainingComplete = False,
     sequenceInProgress = False, isInitializing = False, currentSequence = 1, timers = []\<rparr>"
proof -
  let ?t = "\<lparr>currentNotes = [GUITAR_NOTES ! 20, GUITAR_NOTES ! 24], detectedNote = None,
        notesPlayed = [], correctSequencesPlayed = 0, isTrainingComplete = False,
        sequenceInProgress = False, isInitializing = False, currentSequence = 1, timers = []\<rparr>"
  let ?w = "\<lparr>audio = initialAudioUtils, outcomes = [], errorLog = []\<rparr>"
  have awaiting: "\<not> isInitializing ?t" by simp
  have order: "currentNotes ?t = [GUITAR_NOTES ! 20, GUITAR_NOTES ! 24] \<and>
      name (GUITAR_NOTES ! 20) \<noteq> name (GUITAR_NOTES ! 24) \<and> notesPlayed ?t = []"
    by (simp add: GUITAR_NOTES_def mk_note_def)
  have matches: "detectedNote ?t \<noteq> Some (GUITAR_NOTES ! 20) \<and>
      length (notesPlayed ?t) + 1 < length (currentNotes ?t) \<and>
      name (GUITAR_NOTES ! 20) = name (currentNotes ?t ! length (notesPlayed ?t))"
    by simp
  note th = detectionEvent_match_or_ignore
         [OF awaiting, where a = "GUITAR_NOTES ! 20" and b = "GUITAR_NOTES ! 24"
            and os = Web and settings = defaultSettings and w = ?w and dn = "GUITAR_NOTES ! 20"]
  from th order have "fst (detectionEvents Web defaultSettings
        [Some (GUITAR_NOTES ! 24), Some (GUITAR_NOTES ! 20)] (?t, ?w)) =
         ?t\<lparr>detectedNote := Some (GUITAR_NOTES ! 20), notesPlayed := [0]\<rparr>"
    by blast
  moreover from th matches have "detectionEvent Web defaultSettings (Some (GUITAR_NOTES ! 20)) (?t, ?w) =
      (?t\<lparr>detectedNote := Some (GUITAR_NOTES ! 20),
           notesPlayed := notesPlayed ?t @ [length (notesPlayed ?t)]\<rparr>, ?w)"
    by blast
  ultimately show ?thesis by simp
qed

text \<open>
  The sequence C4, E4 with two repetitions required and no limit on sequences: the events
  C4, E4, C4, E4 complete the trial once (one timer for the next sequence is pending).
\<close>

lemma detectionEvents_example:
  "fst (detectionEvents Web
      \<lparr>notesPerTurn = 2, maxInterval = 5, repetitionsRequired = 2, totalSequences = 0\<rparr>
      [Some (GUITAR_NOTES ! 20), Some (GUITAR_NOTES ! 24), Some (GUITAR_NOTES ! 20), Some (GUITAR_NOTES ! 24)]
      (\<lparr>currentNotes = [GUITAR_NOTES ! 20, GUITAR_NOTES ! 24], detectedNote = None,
         notesPlayed = [], correctSequencesPlayed = 0, isTrainingComplete = False,
         sequenceInProgress = False, isInitializing = False, currentSequence = 1, timers = []\<rparr>,
       \<lparr>audio = initialAudioUtils, outcomes = [], errorLog = []\<rparr>)) =
   \<lparr>currentNotes = [GUITAR_NOTES ! 20, GUITAR_NOTES ! 24], detectedNote = Some (GUITAR_NOTES ! 24),
     notesPlayed = [0, 1], correctSequencesPlayed = 2, isTrainingComplete = False,
     sequenceInProgress = False, isInitializing = False, currentSequence = 2,
     timers = [(2000, NextSequence)]\<rparr>"
  by (simp add: detectionEvent_def detectionEffect_def handleSequenceCompleted_def
        handleTrainingStepComplete_def Let_def GUITAR_NOTES_def mk_note_def)

lemma detectionEvent_full:
  assumes "length (currentNotes t) \<le> length (notesPlayed t)"
  shows "detectionEvent os settings nt (t, w) = (t\<lparr>detectedNote := nt\<rparr>, w)"
proof (cases nt)
  case None
  then show ?thesis by (simp add: detectionEvent_none)
next
  case (Some dn)
  with assms show ?thesis by (simp add: detectionEvent_ignored)
qed

lemma detectionEvents_full:
  assumes "length (currentNotes t) \<le> length (notesPlayed t)"
  shows "\<exists>d. detectionEvents os settings ns (t, w) = (t\<lparr>detectedNote := d\<rparr>, w)"
  using assms
proof (induction ns arbitrary: t)
  case Nil
  show ?case by (intro exI[of _ "detectedNote t"]) simp
next
  case (Cons n ns)
  have "length (currentNotes (t\<lparr>detectedNote := n\<rparr>)) \<le> length (notesPlayed (t\<lparr>detectedNote := n\<rparr>))"
    using Cons.prems by simp
  from Cons.IH[OF this] obtain d where
    "detectionEvents os settings ns (t\<lparr>detectedNote := n\<rparr>, w) = (t\<lparr>detectedNote := n, detectedNote := d\<rparr>, w)"
    by blast
  then show ?case using Cons.prems by (intro exI[of _ d]) (simp add: detectionEvent_full)
qed

text \<open>
  Claim C9. With a budget of one sequence (\<open>totalSequences = 1\<close>; the sequence counter
  starts at 1 and only grows), the completion of a trial sets \<open>isTrainingComplete\<close> and
  schedules only \<open>onFinish\<close>. End to end: the run of the effect that completes the
  last repetition (a detection event with a note other than the one held) leads to that
  finished state; every later detection event changes nothing but
  the displayed note, and the one pending timer fires without touching the sequence, so no
  further sequence is generated. When the budget is not exhausted (\<open>totalSequences = 0\<close>
  or the counter below it), the counter is incremented and a timer of 2000 ms is scheduled;
  when it fires, a new sequence is generated, \<open>notesPlayed\<close> and
  \<open>correctSequencesPlayed\<close> are reset, and its playback is scheduled.
\<close>

theorem handleTrainingStepComplete_budget:
  "(totalSequences settings = 1 \<and> 1 \<le> currentSequence t \<longrightarrow>
      fst (handleTrainingStepComplete os settings (t, w)) =
        t\<lparr>sequenceInProgress := False, isTrainingComplete := True,
          timers := timers t @ [(3000, OnFinish)]\<rparr>) \<and>
   (totalSequences settings = 1 \<and> 1 \<le> currentSequence t \<and> \<not> isInitializing t \<and> timers t = [] \<and>
    length (notesPlayed t) + 1 = length (currentNotes t) \<and>
    name dn = name (currentNotes t ! length (notesPlayed t)) \<and>
    repetitionsRequired settings \<le> correctSequencesPlayed t + 1 \<longrightarrow>
      (\<exists>t1 w1. detectionEffect os settings (t\<lparr>detectedNote := Some dn\<rparr>, w) = (t1, w1) \<and>
         (detectedNote t \<noteq> Some dn \<longrightarrow> detectionEvent os settings (Some dn) (t, w) = (t1, w1)) \<and>
         isTrainingComplete t1 \<and> timers t1 = [(3000, OnFinish)] \<and>
         currentNotes t1 = currentNotes t \<and> currentSequence t1 = currentSequence t \<and>
         (\<forall>ns. \<exists>d. detectionEvents os settings ns (t1, w1) = (t1\<lparr>detectedNote := d\<rparr>, w1)) \<and>
         fst (fireTimer os settings rnd (t1, w1)) = t1\<lparr>timers := []\<rparr>)) \<and>
   (\<not> (totalSequences settings > 0 \<and> currentSequence t \<ge> totalSequences settings) \<longrightarrow>
      fst (handleTrainingStepComplete os settings (t, w)) =
        t\<lparr>sequenceInProgress := False, currentSequence := currentSequence t + 1,
          timers := timers t @ [(2000, NextSequence)]\<rparr> \<and>
      (timers t = [] \<longrightarrow>
         fst (fireTimer os settings rnd (handleTrainingStepComplete os settings (t, w))) =
           t\<lparr>sequenceInProgress := False, currentSequence := currentSequence t + 1,
             currentNotes := generateNewSequence settings rnd, notesPlayed := [],
             correctSequencesPlayed := 0,
             timers := [(200, PlayNewSequence (generateNewSequence settings rnd))]\<rparr>))"
proof (intro conjI impI)
  assume "totalSequences settings = 1 \<and> 1 \<le> currentSequence t"
  then show "fst (handleTrainingStepComplete os settings (t, w)) =
        t\<lparr>sequenceInProgress := False, isTrainingComplete := True,
          timers := timers t @ [(3000, OnFinish)]\<rparr>"
    by (simp add: handleTrainingStepComplete_def Let_def)
next
  assume h: "totalSequences settings = 1 \<and> 1 \<le> currentSequence t \<and> \<not> isInitializing t \<and> timers t = [] \<and>
    length (notesPlayed t) + 1 = length (currentNotes t) \<and>
    name dn = name (currentNotes t ! length (notesPlayed t)) \<and>
    repetitionsRequired settings \<le> correctSequencesPlayed t + 1"
  define t1 where "t1 = t\<lparr>detectedNote := Some dn,
      notesPlayed := notesPlayed t @ [length (notesPlayed t)],
      correctSequencesPlayed := correctSequencesPlayed t + 1,
      sequenceInProgress := False, isTrainingComplete := True,
      timers := [(3000, OnFinish)]\<rparr>"
  define w1 where "w1 = playSuccessSound os w"
  have ev: "detectionEffect os settings (t\<lparr>detectedNote := Some dn\<rparr>, w) = (t1, w1)"
    using h unfolding t1_def w1_def
    by (simp add: detectionEffect_def handleSequenceCompleted_def
          handleTrainingStepComplete_def Let_def)
  have ev': "detectedNote t \<noteq> Some dn \<longrightarrow> detectionEvent os settings (Some dn) (t, w) = (t1, w1)"
    using ev by (simp add: detectionEvent_changed)
  have full: "length (currentNotes t1) \<le> length (notesPlayed t1)"
    using h by (simp add: t1_def)
  have "\<forall>ns. \<exists>d. detectionEvents os settings ns (t1, w1) = (t1\<lparr>detectedNote := d\<rparr>, w1)"
    using detectionEvents_full[OF full] by blast
  moreover have "fst (fireTimer os settings rnd (t1, w1)) = t1\<lparr>timers := []\<rparr>"
    by (simp add: fireTimer_def t1_def)
  moreover have "isTrainingComplete t1" "timers t1 = [(3000, OnFinish)]"
    "currentNotes t1 = currentNotes t" "currentSequence t1 = currentSequence t"
    by (simp_all add: t1_def)
  ultimately show "\<exists>t1 w1. detectionEffect os settings (t\<lparr>detectedNote := Some dn\<rparr>, w) = (t1, w1) \<and>
         (detectedNote t \<noteq> Some dn \<longrightarrow> detectionEvent os settings (Some dn) (t, w) = (t1, w1)) \<and>
         isTrainingComplete t1 \<and> timers t1 = [(3000, OnFinish)] \<and>
         currentNotes t1 = currentNotes t \<and> currentSequence t1 = currentSequence t \<and>
         (\<forall>ns. \<exists>d. detectionEvents os settings ns (t1, w1) = (t1\<lparr>detectedNote := d\<rparr>, w1)) \<and>
         fst (fireTimer os settings rnd (t1, w1)) = t1\<lparr>timers := []\<rparr>"
    using ev ev' by blast
next
  assume h: "\<not> (totalSequences settings > 0 \<and> currentSequence t \<ge> totalSequences settings)"
  then show "fst (handleTrainingStepComplete os settings (t, w)) =
        t\<lparr>sequenceInProgress := False, currentSequence := currentSequence t + 1,
          timers := timers t @ [(2000, NextSequence)]\<rparr>"
    by (auto simp: handleTrainingStepComplete_def Let_def)
next
  assume h: "\<not> (totalSequences settings > 0 \<and> currentSequence t \<ge> totalSequences settings)"
    and e: "timers t = []"
  then show "fst (fireTimer os settings rnd (handleTrainingStepComplete os settings (t, w))) =
           t\<lparr>sequenceInProgress := False, currentSequence := currentSequence t + 1,
             currentNotes := generateNewSequence settings rnd, notesPlayed := [],
             correctSequencesPlayed := 0,
             timers := [(200, PlayNewSequence (generateNewSequence settings rnd))]\<rparr>"
    by (auto simp: handleTrainingStepComplete_def fireTimer_def Let_def)
qed

theorem handleTrainingStepComplete_budget_witness:
  "isTrainingComplete (fst (detectionEvent Web
      \<lparr>notesPerTurn = 1, maxInterval = 5, repetitionsRequired = 1, totalSequences = 1\<rparr>
      (Some (GUITAR_NOTES ! 20))
      (\<lparr>currentNotes = [GUITAR_NOTES ! 20], detectedNote = None, notesPlayed = [],
         correctSequencesPlayed = 0, isTrainingComplete = False, sequenceInProgress = False,
         isInitializing = False, currentSequence = 1, timers = []\<rparr>,
       \<lparr>audio = initialAudioUtils, outcomes = [], errorLog = []\<rparr>))) \<and>
   timers (fst (detectionEvent Web
      \<lparr>notesPerTurn = 1, maxInterval = 5, repetitionsRequired = 1, totalSequences = 1\<rparr>
      (Some (GUITAR_NOTES ! 20))
      (\<lparr>currentNotes = [GUITAR_NOTES ! 20], detectedNote = None, notesPlayed = [],
         correctSequencesPlayed = 0, isTrainingComplete = False, sequenceInProgress = False,
         isInitializing = False, currentSequence = 1, timers = []\<rparr>,
       \<lparr>audio = initialAudioUtils, outcomes = [], errorLog = []\<rparr>))) = [(3000, OnFinish)] \<and>
   currentSequence (fst (handleTrainingStepComplete Web
      \<lparr>notesPerTurn = 1, maxInterval = 5, repetitionsRequired = 1, totalSequences = 10\<rparr>
      (\<lparr>currentNotes = [GUITAR_NOTES ! 20], detectedNote = None, notesPlayed = [0],
         correctSequencesPlayed = 1, isTrainingComplete = False, sequenceInProgress = False,
         isInitializing = False, currentSequence = 1, timers = []\<rparr>,
       \<lparr>audio = initialAudioUtils, outcomes = [], errorLog = []\<rparr>))) = 2 \<and>
   timers (fst (handleTrainingStepComplete Web
      \<lparr>notesPerTurn = 1, maxInterval = 5, repetitionsRequired = 1, totalSequences = 10\<rparr>
      (\<lparr>currentNotes = [GUITAR_NOTES ! 20], detectedNote = None, notesPlayed = [0],
         correctSequencesPlayed = 1, isTrainingComplete = False, sequenceInProgress = False,
         isInitializing = False, currentSequence = 1, timers = []\<rparr>,
       \<lparr>audio = initialAudioUtils, outcomes = [], errorLog = []\<rparr>))) = [(2000, NextSequence)]"
proof -
  let ?S1 = "\<lparr>notesPerTurn = 1, maxInterval = 5, repetitionsRequired = 1, totalSequences = 1\<rparr>"
  let ?S10 = "\<lparr>notesPerTurn = 1, maxInterval = 5, repetitionsRequired = 1, totalSequences = 10\<rparr>"
  let ?t0 = "\<lparr>currentNotes = [GUITAR_NOTES ! 20], detectedNote = None, notesPlayed = [],
         correctSequencesPlayed = 0, isTrainingComplete = False, sequenceInProgress = False,
         isInitializing = False, currentSequence = 1, timers = []\<rparr>"
  let ?t1 = "\<lparr>currentNotes = [GUITAR_NOTES ! 20], detectedNote = None, notesPlayed = [0],
         correctSequencesPlayed = 1, isTrainingComplete = False, sequenceInProgress = False,
         isInitializing = False, currentSequence = 1, timers = []\<rparr>"
  let ?w = "\<lparr>audio = initialAudioUtils, outcomes = [], errorLog = []\<rparr>"
  have pre: "totalSequences ?S1 = 1 \<and> 1 \<le> currentSequence ?t0 \<and> \<not> isInitializing ?t0 \<and>
      timers ?t0 = [] \<and> length (notesPlayed ?t0) + 1 = length (currentNotes ?t0) \<and>
      name (GUITAR_NOTES ! 20) = name (currentNotes ?t0 ! length (notesPlayed ?t0)) \<and>
      repetitionsRequired ?S1 \<le> correctSequencesPlayed ?t0 + 1"
    by simp
  from handleTrainingStepComplete_budget
         [where settings = ?S1 and t = ?t0 and os = Web and w = ?w and dn = "GUITAR_NOTES ! 20"] pre
  obtain t1 w1 where
    "detectedNote ?t0 \<noteq> Some (GUITAR_NOTES ! 20) \<longrightarrow>
       detectionEvent Web ?S1 (Some (GUITAR_NOTES ! 20)) (?t0, ?w) = (t1, w1)"
    "isTrainingComplete t1" "timers t1 = [(3000, OnFinish)]"
    by blast
  moreover have "detectedNote ?t0 \<noteq> Some (GUITAR_NOTES ! 20)" by simp
  ultimately have "detectionEvent Web ?S1 (Some (GUITAR_NOTES ! 20)) (?t0, ?w) = (t1, w1)"
    "isTrainingComplete t1" "timers t1 = [(3000, OnFinish)]"
    by blast+
  then have a: "isTrainingComplete (fst (detectionEvent Web ?S1 (Some (GUITAR_NOTES ! 20)) (?t0, ?w)))"
    and b: "timers (fst (detectionEvent Web ?S1 (Some (GUITAR_NOTES ! 20)) (?t0, ?w))) = [(3000, OnFinish)]"
    by simp_all
  have open_budget: "\<not> (totalSequences ?S10 > 0 \<and> currentSequence ?t1 \<ge> totalSequences ?S10)"
    by simp
  from handleTrainingStepComplete_budget
         [where settings = ?S10 and t = ?t1 and os = Web and w = ?w] open_budget
  have c: "fst (handleTrainingStepComplete Web ?S10 (?t1, ?w)) =
        ?t1\<lparr>sequenceInProgress := False, currentSequence := currentSequence ?t1 + 1,
          timers := timers ?t1 @ [(2000, NextSequence)]\<rparr>"
    by blast
  from c have c1: "currentSequence (fst (handleTrainingStepComplete Web ?S10 (?t1, ?w))) = 2"
    by simp
  from c have c2: "timers (fst (handleTrainingStepComplete Web ?S10 (?t1, ?w))) = [(2000, NextSequence)]"
    by simp
  from a b c1 c2 show ?thesis by blast
qed

section \<open>Properties of playback and demonstration\<close>

lemma quiet_pause: "quiet (pausePitchDetection a)"
  by (simp add: quiet_def pausePitchDetection_def listening_def Let_def)

lemma pause_quiet: "quiet a \<Longrightarrow> \<not> isPitchDetectionPaused a \<Longrightarrow> pausePitchDetection a = a"
  by (simp add: quiet_def pausePitchDetection_def listening_def Let_def)

lemma resume_not_paused: "\<not> isPitchDetectionPaused a \<Longrightarrow> resumePitchDetection os a = a"
  by (simp add: resumePitchDetection_def)

lemma playNote_quiet: "quiet (audio w) \<Longrightarrow> audio (playNote os nt w) = audio w"
  by (cases "isPitchDetectionPaused (audio w)")
     (auto simp: playNote_def playSound_def Let_def pause_quiet resume_not_paused
           split: list.splits play_outcome.splits)

lemma playNotes_quiet: "quiet (audio w) \<Longrightarrow> audio (playNotes os ns w) = audio w"
  by (induction ns arbitrary: w) (simp_all add: playNote_quiet)

lemma playSequence_quiet: "quiet (audio w) \<Longrightarrow> audio (playSequence os ns w) = audio w"
  by (cases "isPitchDetectionPaused (audio w)")
     (simp_all add: playSequence_def Let_def pause_quiet resume_not_paused playNotes_quiet)

lemma playSequence_thrice_quiet:
  "quiet (audio w) \<Longrightarrow> audio ((playSequence os ns ^^ n) w) = audio w"
  by (induction n) (simp_all add: playSequence_quiet)

text \<open>
  Whatever the playback calls do, a demonstration and the success figure leave the session
  as \<open>pause()\<close> followed by \<open>resume()\<close> does: the pause comes first and the resume
  is reached on every path.
\<close>

lemma playCurrentSequenceWithNotes_audio:
  assumes "ns \<noteq> []"
  shows "audio (snd (playCurrentSequenceWithNotes os ns (t, w))) =
           resumePitchDetection os (pausePitchDetection (audio w))"
proof -
  have "quiet (audio (w\<lparr>audio := pausePitchDetection (audio w)\<rparr>))" by (simp add: quiet_pause)
  from playSequence_thrice_quiet[OF this, where os = os and ns = ns and n = 3] assms show ?thesis
    by (simp add: playCurrentSequenceWithNotes_def Let_def)
qed

lemma playSuccessSound_audio:
  "audio (playSuccessSound os w) = resumePitchDetection os (pausePitchDetection (audio w))"
proof -
  let ?w1 = "w\<lparr>audio := pausePitchDetection (audio w)\<rparr>"
  let ?w2 = "playNote os (successNotes ! 0) ?w1"
  let ?w3 = "playNote os (successNotes ! 1) ?w2"
  let ?w4 = "playNote os (successNotes ! 2) ?w3"
  let ?w5 = "playNote os (successNotes ! 3) ?w4"
  have a1: "audio ?w1 = pausePitchDetection (audio w)" by simp
  have q1: "quiet (audio ?w1)" by (simp add: quiet_pause)
  have a2: "audio ?w2 = audio ?w1" by (rule playNote_quiet[OF q1])
  have q2: "quiet (audio ?w2)" by (simp only: a2 q1)
  have a3: "audio ?w3 = audio ?w2" by (rule playNote_quiet[OF q2])
  have q3: "quiet (audio ?w3)" by (simp only: a3 q2)
  have a4: "audio ?w4 = audio ?w3" by (rule playNote_quiet[OF q3])
  have q4: "quiet (audio ?w4)" by (simp only: a4 q3)
  have a5: "audio ?w5 = audio ?w4" by (rule playNote_quiet[OF q4])
  have "audio ?w5 = pausePitchDetection (audio w)"
    by (simp only: a5 a4 a3 a2 a1)
  moreover have "playSuccessSound os w = ?w5\<lparr>audio := resumePitchDetection os (audio ?w5)\<rparr>"
    by (simp only: playSuccessSound_def Let_def)
  ultimately show ?thesis by simp
qed

text \<open>
  When the session was listening on iOS, on Android, or on the web with the analyser held,
  it is listening again afterwards.
\<close>

lemma resume_after_pause_listening:
  assumes "listening a" "os \<noteq> Web \<or> (audioContext a \<and> analyser a \<and> recordingDataArray a)"
  shows "listening (resumePitchDetection os (pausePitchDetection a)) \<and>
         \<not> isPitchDetectionPaused (resumePitchDetection os (pausePitchDetection a))"
  using assms
  by (cases os) (auto simp: listening_def resumePitchDetection_def pausePitchDetection_def Let_def
        startNativePitchDetection_def startEnhancedSimulatedDetection_def)

lemma demonstration_restores_listening:
  assumes "ns \<noteq> []" "listening (audio w)"
    "os \<noteq> Web \<or> (audioContext (audio w) \<and> analyser (audio w) \<and> recordingDataArray (audio w))"
  shows "listening (audio (snd (playCurrentSequenceWithNotes os ns (t, w)))) \<and>
         \<not> isPitchDetectionPaused (audio (snd (playCurrentSequenceWithNotes os ns (t, w))))"
  using resume_after_pause_listening[OF assms(2,3)]
  by (simp add: playCurrentSequenceWithNotes_audio[OF assms(1)])

text \<open>
  Claim C8, at the inputs where the code departs from it. On the web with the microphone
  permission denied, \<open>startPitchDetection\<close> installs the simulated loop. The
  demonstration pauses it, and the \<open>resume()\<close> it reaches restarts nothing (no analyser
  is held and the platform is neither iOS nor Android) while clearing the paused flags: the
  routine returns with no timer set, and a later \<open>resume()\<close> changes nothing. And when
  the success figure starts while detection is already paused, its \<open>pause()\<close> clears
  \<open>pitchDetectionWasRunning\<close>, its \<open>resume()\<close> returns at the guard, and the session
  stays paused with no timer, also after a further \<open>resume()\<close>.
\<close>

theorem demonstration_leaves_fallback_halted:
  "audio (snd (playCurrentSequenceWithNotes Web [GUITAR_NOTES ! 20, GUITAR_NOTES ! 24]
       (t, \<lparr>audio = startPitchDetection Web Denied MediaOk initialAudioUtils,
            outcomes = [], errorLog = []\<rparr>)))
     = (startPitchDetection Web Denied MediaOk initialAudioUtils)\<lparr>pitchDetectionInterval := None\<rparr> \<and>
   listening (startPitchDetection Web Denied MediaOk initialAudioUtils) \<and>
   \<not> listening ((startPitchDetection Web Denied MediaOk initialAudioUtils)\<lparr>pitchDetectionInterval := None\<rparr>) \<and>
   resumePitchDetection Web ((startPitchDetection Web Denied MediaOk initialAudioUtils)\<lparr>pitchDetectionInterval := None\<rparr>)
     = (startPitchDetection Web Denied MediaOk initialAudioUtils)\<lparr>pitchDetectionInterval := None\<rparr> \<and>
   audio (playSuccessSound Web
       \<lparr>audio = pausePitchDetection (startPitchDetection Web Granted MediaOk initialAudioUtils),
        outcomes = [], errorLog = []\<rparr>)
     = (pausePitchDetection (startPitchDetection Web Granted MediaOk initialAudioUtils))
          \<lparr>pitchDetectionWasRunning := False\<rparr> \<and>
   isPitchDetectionPaused ((pausePitchDetection (startPitchDetection Web Granted MediaOk initialAudioUtils))
          \<lparr>pitchDetectionWasRunning := False\<rparr>) \<and>
   \<not> listening (resumePitchDetection Web ((pausePitchDetection (startPitchDetection Web Granted MediaOk initialAudioUtils))
          \<lparr>pitchDetectionWasRunning := False\<rparr>))"
  by (simp add: playCurrentSequenceWithNotes_audio playSuccessSound_audio
        startPitchDetection_def startWebPitchDetection_def startSimulatedPitchDetection_def
        pausePitchDetection_def resumePitchDetection_def initialAudioUtils_def listening_def Let_def)

theorem demonstration_leaves_fallback_halted_witness:
  "\<not> listening (audio (snd (playCurrentSequenceWithNotes Web [GUITAR_NOTES ! 20, GUITAR_NOTES ! 24]
       (\<lparr>currentNotes = [GUITAR_NOTES ! 20, GUITAR_NOTES ! 24], detectedNote = None,
          notesPlayed = [], correctSequencesPlayed = 0, isTrainingComplete = False,
          sequenceInProgress = False, isInitializing = True, currentSequence = 1, timers = []\<rparr>,
        \<lparr>audio = startPitchDetection Web Denied MediaOk initialAudioUtils,
          outcomes = [], errorLog = []\<rparr>))))"
  using demonstration_leaves_fallback_halted
    [of "\<lparr>currentNotes = [GUITAR_NOTES ! 20, GUITAR_NOTES ! 24], detectedNote = None,
          notesPlayed = [], correctSequencesPlayed = 0, isTrainingComplete = False,
          sequenceInProgress = False, isInitializing = True, currentSequence = 1, timers = []\<rparr>"]
  by simp

end
